theory Spec2Isabelle
  imports Complex_Main "HOL-Library.Sublist" "HOL-Library.AList"
begin

section \<open>Numbers, errors and constants of walletTracker.ts\<close>

text \<open>
  The TypeScript source computes with the single type \<open>number\<close>. Counters, lamport
  balances, token amounts and timestamps are integers there and are modelled as
  \<open>nat\<close> or \<open>int\<close>; the fields of a trader record, which hold quotients such as
  \<open>change / 1e9\<close>, are modelled as exact rationals (\<open>rat\<close>). Rounding of IEEE
  doubles, \<open>NaN\<close> and infinities are outside the model: \<open>Number(amount)\<close> of a
  token amount is taken to be the integer the provider's digit string denotes.
\<close>

text \<open>A thrown value; \<open>error?.message\<close> may be absent.\<close>

datatype error = Error (message: "string option")

definition MAX_RETRIES :: nat where
  "MAX_RETRIES = 5"

definition INITIAL_BACKOFF :: nat where
  "INITIAL_BACKOFF = 1000"

definition BATCH_SIZE :: nat where
  "BATCH_SIZE = 50"

definition MAX_TRANSACTIONS_PER_INTERVAL :: nat where
  "MAX_TRANSACTIONS_PER_INTERVAL = 800"

text \<open>Declared on line 28 and referenced nowhere in the source.\<close>

definition MAX_TRANSACTIONS :: nat where
  "MAX_TRANSACTIONS = 1000"

definition MIN_TRADES :: rat where
  "MIN_TRADES = 3"

text \<open>Imported from \<open>@solana/web3.js\<close>, where it is 1000000000.\<close>

definition LAMPORTS_PER_SOL :: rat where
  "LAMPORTS_PER_SOL = 1000000000"

section \<open>withRetry\<close>

text \<open>\<open>String.prototype.str_includes\<close>: the argument occurs as a contiguous substring.\<close>

fun str_includes :: "string \<Rightarrow> string \<Rightarrow> bool" where
  "str_includes [] sub = (sub = [])"
| "str_includes (c # cs) sub = (prefix sub (c # cs) \<or> str_includes cs sub)"

text \<open>\<open>error?.message?.str_includes('429')\<close>: false when there is no message.\<close>

definition rate_limited :: "error \<Rightarrow> bool" where
  "rate_limited err = (case message err of None \<Rightarrow> False | Some m \<Rightarrow> str_includes m ''429'')"

text \<open>
  What a run of \<open>withRetry\<close> does besides returning: it invokes the operation and it
  sleeps. \<open>Invoke k\<close> is the invocation made at \<open>retryCount = k\<close>.
\<close>

datatype event = Invoke nat | Sleep nat

text \<open>
  The operation is a thunk that may answer differently each time it is called. Every
  level of the recursion calls it exactly once, so its answers are indexed by
  \<open>retryCount\<close>: \<open>operation k\<close> is the answer to the call made at \<open>retryCount = k\<close>
  (\<open>Inl\<close> a thrown error, \<open>Inr\<close> the resolved value). The result pairs the outcome of
  the promise with the events in the order they happened.
\<close>

function withRetry :: "(nat \<Rightarrow> error + 'a) \<Rightarrow> nat \<Rightarrow> (error + 'a) \<times> event list" where
  "withRetry operation retryCount =
     (case operation retryCount of
        Inr v \<Rightarrow> (Inr v, [Invoke retryCount])
      | Inl err \<Rightarrow>
          if rate_limited err \<and> retryCount < MAX_RETRIES
          then (let delay = INITIAL_BACKOFF * 2 ^ retryCount
                in case withRetry operation (retryCount + 1) of
                     (r, evs) \<Rightarrow> (r, Invoke retryCount # Sleep delay # evs))
          else (Inl err, [Invoke retryCount]))"
  by pat_completeness auto
termination
  by (relation "measure (\<lambda>(operation, retryCount). MAX_RETRIES - retryCount)") auto

declare withRetry.simps [simp del]

text \<open>The events of \<open>n\<close> rate-limited attempts starting at \<open>retryCount = k\<close>.\<close>

fun backoff_events :: "nat \<Rightarrow> nat \<Rightarrow> event list" where
  "backoff_events k 0 = []"
| "backoff_events k (Suc n) =
     Invoke k # Sleep (INITIAL_BACKOFF * 2 ^ k) # backoff_events (Suc k) n"

section \<open>Transactions and the classifier\<close>

text \<open>
  One entry of \<open>meta.preTokenBalances\<close> or \<open>meta.postTokenBalances\<close>. The owner is
  optional; \<open>uiTokenAmount\<close> holds \<open>Number(uiTokenAmount.amount)\<close> when the object is
  there. A list element may itself be \<open>null\<close>, and a read past the end of a JavaScript
  array gives \<open>undefined\<close>: both are \<open>None\<close>.
\<close>

record token_balance =
  owner :: "string option"
  uiTokenAmount :: "int option"

record tx_meta =
  preBalances :: "int list option"
  postBalances :: "int list option"
  preTokenBalances :: "token_balance option list option"
  postTokenBalances :: "token_balance option list option"

record transaction =
  meta :: "tx_meta option"

text \<open>\<open>xs[i]\<close> on an array of objects: \<open>undefined\<close> out of range.\<close>

definition entry_at :: "'a option list \<Rightarrow> nat \<Rightarrow> 'a option" where
  "entry_at xs i = (if i < length xs then xs ! i else None)"

text \<open>Truthiness of an optional string: present and not empty.\<close>

definition truthy :: "string option \<Rightarrow> bool" where
  "truthy s = (case s of None \<Rightarrow> False | Some str \<Rightarrow> str \<noteq> [])"

text \<open>\<open>pre && post && pre.owner && pre.uiTokenAmount && post.uiTokenAmount\<close>\<close>

definition pair_present :: "token_balance option \<Rightarrow> token_balance option \<Rightarrow> bool" where
  "pair_present pre post =
     (case pre of
        None \<Rightarrow> False
      | Some p \<Rightarrow>
          (case post of
             None \<Rightarrow> False
           | Some q \<Rightarrow> truthy (owner p) \<and> uiTokenAmount p \<noteq> None \<and> uiTokenAmount q \<noteq> None))"

text \<open>The \<open>for\<close> loop of \<open>isTradeTransaction\<close>, from index \<open>i\<close> on.\<close>

function isTrade_loop ::
  "token_balance option list \<Rightarrow> token_balance option list \<Rightarrow> nat \<Rightarrow> bool" where
  "isTrade_loop preBals postBals i =
     (if i < length preBals
      then (let pre = entry_at preBals i; post = entry_at postBals i
            in if pair_present pre post \<and>
                  \<bar>the (uiTokenAmount (the post)) - the (uiTokenAmount (the pre))\<bar> > 0
               then True
               else isTrade_loop preBals postBals (i + 1))
      else False)"
  by pat_completeness auto
termination
  by (relation "measure (\<lambda>(preBals, postBals, i). length preBals - i)") auto

declare isTrade_loop.simps [simp del]

definition isTradeTransaction :: "transaction option \<Rightarrow> bool" where
  "isTradeTransaction transaction =
     (case transaction of
        None \<Rightarrow> False
      | Some tx \<Rightarrow>
          (case meta tx of
             None \<Rightarrow> False
           | Some m \<Rightarrow>
               (case preTokenBalances m of
                  None \<Rightarrow> False
                | Some preBals \<Rightarrow>
                    (case postTokenBalances m of
                       None \<Rightarrow> False
                     | Some postBals \<Rightarrow> isTrade_loop preBals postBals 0))))"

text \<open>The loop of \<open>calculateTradeValue\<close>; \<open>postBalances[i]\<close> is undefined past the end.\<close>

function tradeValue_loop :: "int list \<Rightarrow> int list \<Rightarrow> nat \<Rightarrow> rat \<Rightarrow> rat" where
  "tradeValue_loop preBals postBals i totalChange =
     (if i < length preBals
      then (if i < length postBals
            then (let change = \<bar>of_int (postBals ! i - preBals ! i)\<bar> / LAMPORTS_PER_SOL
                  in if change > 1 / 1000
                     then tradeValue_loop preBals postBals (i + 1) (totalChange + change)
                     else tradeValue_loop preBals postBals (i + 1) totalChange)
            else tradeValue_loop preBals postBals (i + 1) totalChange)
      else totalChange)"
  by pat_completeness auto
termination
  by (relation "measure (\<lambda>(preBals, postBals, i, totalChange). length preBals - i)") auto

declare tradeValue_loop.simps [simp del]

definition calculateTradeValue :: "transaction option \<Rightarrow> rat" where
  "calculateTradeValue transaction =
     (case transaction of
        None \<Rightarrow> 0
      | Some tx \<Rightarrow>
          (case meta tx of
             None \<Rightarrow> 0
           | Some m \<Rightarrow>
               (case preBalances m of
                  None \<Rightarrow> 0
                | Some preBals \<Rightarrow>
                    (case postBalances m of
                       None \<Rightarrow> 0
                     | Some postBals \<Rightarrow> tradeValue_loop preBals postBals 0 0))))"

section \<open>The ledger\<close>

record TraderData =
  profit :: rat
  trades :: rat
  totalVolume :: rat
  successfulTrades :: rat
  averageTradeSize :: rat
  solBalance :: rat
  usdProfit :: rat

text \<open>
  \<open>profitTraders\<close> is an object keyed by wallet address. Its entries are kept in
  insertion order, which is the order \<open>Object.entries\<close> lists keys in that are not array
  indices, as base58 addresses are not; a key occurs once.
\<close>

type_synonym ledger = "(string \<times> TraderData) list"

definition new_trader :: TraderData where
  "new_trader = \<lparr>profit = 0, trades = 0, totalVolume = 0, successfulTrades = 0,
                 averageTradeSize = 0, solBalance = 0, usdProfit = 0\<rparr>"

text \<open>
  Lines 273 to 281: the updates of one trader object for one balance change, computed
  exactly. The division is by \<open>trades + 1\<close>. The same update with the rounding of
  doubles is \<open>record_trade_rounded\<close> below.
\<close>

definition record_trade :: "int \<Rightarrow> rat \<Rightarrow> TraderData \<Rightarrow> TraderData" where
  "record_trade change tradeValue trader =
     (let t1 = trader\<lparr>profit := profit trader + of_int change / 1000000000\<rparr>;
          t2 = t1\<lparr>trades := trades t1 + 1\<rparr>;
          t3 = t2\<lparr>totalVolume := totalVolume t2 + tradeValue\<rparr>;
          t4 = (if change > 0 then t3\<lparr>successfulTrades := successfulTrades t3 + 1\<rparr> else t3)
      in t4\<lparr>averageTradeSize := totalVolume t4 / trades t4\<rparr>)"

text \<open>
  The body of the inner loop (lines 254 to 283) for one index-aligned pair: the record of
  \<open>pre.owner\<close> is created when the ledger has none, then mutated in place.
\<close>

definition apply_pair ::
  "ledger \<Rightarrow> rat \<Rightarrow> token_balance option \<Rightarrow> token_balance option \<Rightarrow> ledger" where
  "apply_pair profitTraders tradeValue pre post =
     (if pair_present pre post
      then (let change = the (uiTokenAmount (the post)) - the (uiTokenAmount (the pre));
                address = the (owner (the pre))
            in if change \<noteq> 0
               then (let created = (if map_of profitTraders address = None
                                    then profitTraders @ [(address, new_trader)]
                                    else profitTraders)
                     in AList.map_entry address (record_trade change tradeValue) created)
               else profitTraders)
      else profitTraders)"

function apply_loop ::
  "ledger \<Rightarrow> rat \<Rightarrow> token_balance option list \<Rightarrow> token_balance option list \<Rightarrow> nat \<Rightarrow> ledger" where
  "apply_loop profitTraders tradeValue preBals postBals i =
     (if i < length preBals
      then apply_loop
             (apply_pair profitTraders tradeValue (entry_at preBals i) (entry_at postBals i))
             tradeValue preBals postBals (i + 1)
      else profitTraders)"
  by pat_completeness auto
termination
  by (relation "measure (\<lambda>(profitTraders, tradeValue, preBals, postBals, i). length preBals - i)")
    auto

declare apply_loop.simps [simp del]

text \<open>
  Lines 244 to 284: what is done with a fetched transaction. Each \<open>continue\<close> leaves the
  ledger as it is.
\<close>

definition process_transaction :: "ledger \<Rightarrow> transaction option \<Rightarrow> ledger" where
  "process_transaction profitTraders transaction =
     (case transaction of
        None \<Rightarrow> profitTraders
      | Some tx \<Rightarrow>
          (case meta tx of
             None \<Rightarrow> profitTraders
           | Some m \<Rightarrow>
               if \<not> isTradeTransaction transaction then profitTraders
               else (let tradeValue = calculateTradeValue transaction
                     in if tradeValue = 0 then profitTraders
                        else (let preBals = (case preTokenBalances m of None \<Rightarrow> [] | Some xs \<Rightarrow> xs);
                                  postBals = (case postTokenBalances m of None \<Rightarrow> [] | Some xs \<Rightarrow> xs)
                              in apply_loop profitTraders tradeValue preBals postBals 0))))"

section \<open>Double precision\<close>

text \<open>
  The numbers of the source are IEEE doubles. The definitions above compute the fields of a
  record exactly; the rounding of each operation is modelled here, for the update of one
  record.
\<close>








text \<open>
  Lines 273 to 281 again, every arithmetic result passed through a rounding \<open>fl\<close>:
  with \<open>binary64\<close> for \<open>fl\<close> this is the update as the doubles of the source
  compute it, with the identity it is \<open>record_trade\<close>.
\<close>

definition record_trade_rounded ::
  "(rat \<Rightarrow> rat) \<Rightarrow> int \<Rightarrow> rat \<Rightarrow> TraderData \<Rightarrow> TraderData" where
  "record_trade_rounded fl change tradeValue trader =
     (let t1 = trader\<lparr>profit := fl (profit trader + fl (of_int change / 1000000000))\<rparr>;
          t2 = t1\<lparr>trades := fl (trades t1 + 1)\<rparr>;
          t3 = t2\<lparr>totalVolume := fl (totalVolume t2 + tradeValue)\<rparr>;
          t4 = (if change > 0 then t3\<lparr>successfulTrades := fl (successfulTrades t3 + 1)\<rparr>
                else t3)
      in t4\<lparr>averageTradeSize := fl (totalVolume t4 / trades t4)\<rparr>)"

lemma record_trade_rounded_exact: "record_trade_rounded (\<lambda>x. x) = record_trade"
  by (simp add: fun_eq_iff record_trade_rounded_def record_trade_def)

section \<open>The chain-data provider\<close>

record sig_info =
  signature :: string
  blockTime :: "int option"

text \<open>
  The network calls the tracker makes. Each takes the attempt number last, the index
  \<open>withRetry\<close> invokes it at. \<open>getSignaturesForAddress\<close> is given the number of page
  requests made before it in the window and the \<open>before\<close> cursor, so that a provider may
  answer every request as it likes; \<open>getTransaction\<close> is given the signature.
  \<open>getBalance\<close> stands for \<open>new PublicKey(address)\<close> followed by
  \<open>connection.getBalance\<close>; either may throw.
\<close>

record provider =
  getSignaturesForAddress :: "nat \<Rightarrow> string option \<Rightarrow> nat \<Rightarrow> error + sig_info list"
  getTransaction :: "string \<Rightarrow> nat \<Rightarrow> error + transaction option"
  getBalance :: "string \<Rightarrow> error + int"

section \<open>displayResults\<close>

definition getWalletSolBalance :: "provider \<Rightarrow> string \<Rightarrow> rat" where
  "getWalletSolBalance prov walletAddress =
     (case getBalance prov walletAddress of
        Inl err \<Rightarrow> 0
      | Inr balance \<Rightarrow> of_int balance / LAMPORTS_PER_SOL)"

text \<open>The filter of line 321. \<open>&&\<close> evaluates the quotient only when \<open>trades \<ge> 3\<close>.\<close>

definition eligible :: "TraderData \<Rightarrow> bool" where
  "eligible d = (trades d \<ge> MIN_TRADES \<and> profit d > 0 \<and> successfulTrades d / trades d > 1 / 2)"

text \<open>
  Lines 320 to 327. \<open>Array.prototype.sort\<close> is stable, and the comparator
  \<open>b.profit - a.profit\<close> orders by descending profit: the stable sort on the key
  \<open>- profit\<close>.
\<close>

definition eligibleTraders :: "ledger \<Rightarrow> (string \<times> TraderData) list" where
  "eligibleTraders profitTraders =
     take 10 (sort_key (\<lambda>entry. - profit (snd entry))
                (filter (\<lambda>entry. eligible (snd entry)) profitTraders))"

text \<open>
  Lines 330 to 334. Each selected \<open>data\<close> is the very object stored in the ledger, so
  the assignments change the ledger's record of that address.
\<close>

definition update_balance :: "provider \<Rightarrow> rat \<Rightarrow> string \<Rightarrow> TraderData \<Rightarrow> TraderData" where
  "update_balance prov solPrice address d =
     (let d1 = d\<lparr>solBalance := getWalletSolBalance prov address\<rparr>
      in d1\<lparr>usdProfit := profit d1 * solPrice\<rparr>)"

fun update_balances :: "provider \<Rightarrow> rat \<Rightarrow> string list \<Rightarrow> ledger \<Rightarrow> ledger" where
  "update_balances prov solPrice [] profitTraders = profitTraders"
| "update_balances prov solPrice (address # rest) profitTraders =
     update_balances prov solPrice rest
       (AList.map_entry address (update_balance prov solPrice address) profitTraders)"

text \<open>
  \<open>displayResults\<close> returns the ledger as the call leaves it, and the rows of the
  table it prints: the selected addresses in order, each with its record as read after
  the balances were updated. The formatting of the rows is left out.
\<close>

definition displayResults ::
  "provider \<Rightarrow> ledger \<Rightarrow> rat \<Rightarrow> ledger \<times> (string \<times> TraderData) list" where
  "displayResults prov profitTraders solPrice =
     (let selected = map fst (eligibleTraders profitTraders);
          updated = update_balances prov solPrice selected profitTraders
      in (updated, map (\<lambda>address. (address, the (map_of updated address))) selected))"

section \<open>One time period of trackProfitablePumpFunTraders\<close>

text \<open>
  The variables of the \<open>while\<close> loop of lines 193 to 303, with two records of what was
  sent to the provider: the number of page requests, and the signatures passed to
  \<open>getTransaction\<close>, in order.
\<close>

record window_state =
  allSignatures :: "sig_info list"
  lastSignature :: "string option"
  keepFetching :: bool
  totalFetched :: nat
  profitTraders :: ledger
  pageRequests :: nat
  fetchedTransactions :: "string list"

text \<open>\<open>sig?.blockTime ? sig.blockTime * 1000 : 0\<close>\<close>

definition sig_time :: "sig_info \<Rightarrow> int" where
  "sig_time sig = (case blockTime sig of
                     None \<Rightarrow> 0
                   | Some t \<Rightarrow> if t \<noteq> 0 then t * 1000 else 0)"

text \<open>
  Lines 236 to 293 for one signature: a failed fetch is caught and the signature skipped.
\<close>

definition process_signature :: "provider \<Rightarrow> window_state \<Rightarrow> sig_info \<Rightarrow> window_state" where
  "process_signature prov st sig =
     (let st1 = st\<lparr>fetchedTransactions := fetchedTransactions st @ [signature sig]\<rparr>
      in case fst (withRetry (getTransaction prov (signature sig)) 0) of
           Inl txError \<Rightarrow> st1
         | Inr transaction \<Rightarrow>
             st1\<lparr>profitTraders := process_transaction (profitTraders st1) transaction\<rparr>)"

text \<open>
  Lines 230 to 299: every signature accumulated so far is fetched and applied, then the
  intermediate table is shown.
\<close>

definition process_accumulated :: "provider \<Rightarrow> rat \<Rightarrow> window_state \<Rightarrow> window_state" where
  "process_accumulated prov solPrice st =
     (let st1 = foldl (process_signature prov) st (allSignatures st)
      in st1\<lparr>profitTraders := fst (displayResults prov (profitTraders st1) solPrice)\<rparr>)"

text \<open>Lines 205 to 299: the rest of the loop body once a page that is not empty arrived.\<close>

definition window_step ::
  "provider \<Rightarrow> int \<Rightarrow> int \<Rightarrow> rat \<Rightarrow> window_state \<Rightarrow> sig_info list \<Rightarrow> window_state" where
  "window_step prov now ms solPrice st signatures =
     (let oldestTx = last signatures;
          oldestTxTime = sig_time oldestTx;
          st1 = (if oldestTxTime < now - ms
                 then st\<lparr>allSignatures :=
                            allSignatures st @ filter (\<lambda>sig. sig_time sig \<ge> now - ms) signatures,
                          keepFetching := False\<rparr>
                 else st\<lparr>allSignatures := allSignatures st @ signatures,
                          lastSignature := Some (signature (last signatures))\<rparr>);
          st2 = st1\<lparr>totalFetched := totalFetched st1 + length signatures\<rparr>;
          st3 = (if totalFetched st2 \<ge> MAX_TRANSACTIONS_PER_INTERVAL
                 then st2\<lparr>keepFetching := False\<rparr> else st2)
      in if totalFetched st3 mod 200 = 0 \<or> \<not> keepFetching st3
         then process_accumulated prov solPrice st3
         else st3)"

text \<open>
  The \<open>while\<close> loop. \<open>if (lastSignature)\<close> passes the cursor only when it is a string
  that is not empty. An error that \<open>withRetry\<close> lets through leaves the loop (\<open>Inl\<close>);
  an empty page breaks out of it.
\<close>

function window_loop ::
  "provider \<Rightarrow> int \<Rightarrow> int \<Rightarrow> rat \<Rightarrow> window_state \<Rightarrow> error + window_state" where
  "window_loop prov now ms solPrice st =
     (if keepFetching st \<and> totalFetched st < MAX_TRANSACTIONS_PER_INTERVAL
      then (let before = (if truthy (lastSignature st) then lastSignature st else None);
                st1 = st\<lparr>pageRequests := pageRequests st + 1\<rparr>
            in case fst (withRetry (getSignaturesForAddress prov (pageRequests st) before) 0) of
                 Inl err \<Rightarrow> Inl err
               | Inr signatures \<Rightarrow>
                   if length signatures = 0 then Inr st1
                   else window_loop prov now ms solPrice
                          (window_step prov now ms solPrice st1 signatures))
      else Inr st)"
  by pat_completeness auto
termination
proof -
  have processed: "totalFetched (foldl (process_signature prov) st sigs) = totalFetched st"
    for prov st sigs
    by (induction sigs arbitrary: st)
       (simp_all add: process_signature_def Let_def split: sum.splits)
  have step: "totalFetched (window_step prov now ms solPrice st signatures) =
      totalFetched st + length signatures" for prov now ms solPrice st signatures
    by (simp add: window_step_def process_accumulated_def Let_def processed)
  show ?thesis
    by (relation "measure (\<lambda>(prov, now, ms, solPrice, st).
                    MAX_TRANSACTIONS_PER_INTERVAL - totalFetched st)")
       (auto simp: step neq_Nil_conv)
qed

declare window_loop.simps [simp del]

definition initial_state :: window_state where
  "initial_state = \<lparr>allSignatures = [], lastSignature = None, keepFetching = True,
                    totalFetched = 0, profitTraders = [], pageRequests = 0,
                    fetchedTransactions = []\<rparr>"

text \<open>
  One iteration of the loop over \<open>TIME_PERIODS\<close> (lines 181 to 311), started on the
  empty ledger: the pagination loop, then the final table. The result is the state the
  period ends in and the rows of its final table.
\<close>

definition track_period ::
  "provider \<Rightarrow> int \<Rightarrow> int \<Rightarrow> rat \<Rightarrow> error + window_state \<times> (string \<times> TraderData) list" where
  "track_period prov now ms solPrice =
     (case window_loop prov now ms solPrice initial_state of
        Inl err \<Rightarrow> Inl err
      | Inr st \<Rightarrow>
          (case displayResults prov (profitTraders st) solPrice of
             (updated, rows) \<Rightarrow> Inr (st\<lparr>profitTraders := updated\<rparr>, rows)))"

section \<open>The invariant of a record\<close>


section \<open>Providers and transactions to run the code on\<close>

text \<open>Distinct signatures, none of them empty.\<close>

definition sig_name :: "nat \<Rightarrow> string" where
  "sig_name n = CHR ''s'' # replicate n CHR ''x''"

text \<open>
  Page \<open>n\<close> of a history served in pages of \<open>len\<close> signatures, all of them stamped
  1699999000 s, inside a day before \<open>now = 1700000000000\<close> ms.
\<close>

definition recent_page :: "nat \<Rightarrow> nat \<Rightarrow> sig_info list" where
  "recent_page len n =
     map (\<lambda>i. \<lparr>signature = sig_name (len * n + i), blockTime = Some 1699999000\<rparr>) [0..<len]"

text \<open>A provider that answers every request with 49 signatures; every transaction is null.\<close>

definition short_page_provider :: provider where
  "short_page_provider =
     \<lparr>getSignaturesForAddress = (\<lambda>n before k. Inr (recent_page 49 n)),
      getTransaction = (\<lambda>sig k. Inr None),
      getBalance = (\<lambda>address. Inr 0)\<rparr>"

text \<open>A provider that answers every request with a full page of 50 signatures.\<close>

definition full_page_provider :: provider where
  "full_page_provider =
     \<lparr>getSignaturesForAddress = (\<lambda>n before k. Inr (recent_page 50 n)),
      getTransaction = (\<lambda>sig k. Inr None),
      getBalance = (\<lambda>address. Inr 0)\<rparr>"

text \<open>
  A provider whose only page ends with a signature that has no block time, and one whose
  first page has such a signature in front of a recent one.
\<close>

definition boundary_provider :: provider where
  "boundary_provider =
     \<lparr>getSignaturesForAddress =
        (\<lambda>n before k. Inr [\<lparr>signature = sig_name 0, blockTime = Some 1699999000\<rparr>,
                             \<lparr>signature = sig_name 1, blockTime = None\<rparr>]),
      getTransaction = (\<lambda>sig k. Inr None),
      getBalance = (\<lambda>address. Inr 0)\<rparr>"

definition null_time_provider :: provider where
  "null_time_provider =
     \<lparr>getSignaturesForAddress =
        (\<lambda>n before k. if n = 0
                        then Inr [\<lparr>signature = sig_name 0, blockTime = None\<rparr>,
                                  \<lparr>signature = sig_name 1, blockTime = Some 1699999000\<rparr>]
                        else Inr []),
      getTransaction = (\<lambda>sig k. Inr None),
      getBalance = (\<lambda>address. Inr 0)\<rparr>"

text \<open>
  A transaction in which wallet \<open>A\<close> gains 5 (a raw 5000000000) and 2.3 SOL move.
\<close>

definition gain_tx :: transaction where
  "gain_tx =
     \<lparr>meta = Some \<lparr>preBalances = Some [2300000000], postBalances = Some [0],
        preTokenBalances = Some [Some \<lparr>owner = Some ''A'', uiTokenAmount = Some 0\<rparr>],
        postTokenBalances =
          Some [Some \<lparr>owner = Some ''A'', uiTokenAmount = Some 5000000000\<rparr>]\<rparr>\<rparr>"

text \<open>
  A provider with four full pages of recent signatures, \<open>sig_name 0\<close> to \<open>sig_name 199\<close>,
  then a page whose one signature is older than any window. The transaction of
  \<open>sig_name 0\<close> is \<open>gain_tx\<close>; the others are null.
\<close>

definition repeat_provider :: provider where
  "repeat_provider =
     \<lparr>getSignaturesForAddress =
        (\<lambda>n before k. if n < 4 then Inr (recent_page 50 n)
                        else Inr [\<lparr>signature = sig_name 200, blockTime = Some 1600000000\<rparr>]),
      getTransaction = (\<lambda>sig k. if sig = sig_name 0 then Inr (Some gain_tx) else Inr None),
      getBalance = (\<lambda>address. Inr 0)\<rparr>"

section \<open>Properties of withRetry\<close>

lemma withRetry_success:
  "operation k = Inr v \<Longrightarrow> withRetry operation k = (Inr v, [Invoke k])"
  by (subst withRetry.simps) simp

lemma withRetry_give_up:
  "operation k = Inl err \<Longrightarrow> \<not> (rate_limited err \<and> k < MAX_RETRIES) \<Longrightarrow>
   withRetry operation k = (Inl err, [Invoke k])"
  by (subst withRetry.simps) auto

lemma withRetry_backoff:
  "(\<forall>j<n. \<exists>err. operation (k + j) = Inl err \<and> rate_limited err) \<Longrightarrow>
   k + n \<le> MAX_RETRIES \<Longrightarrow>
   withRetry operation k =
     (fst (withRetry operation (k + n)), backoff_events k n @ snd (withRetry operation (k + n)))"
proof (induction n arbitrary: k)
  case 0
  then show ?case by simp
next
  case (Suc n)
  from Suc.prems(1) obtain err where err: "operation k = Inl err" "rate_limited err"
    by (metis add.right_neutral zero_less_Suc)
  have lt: "k < MAX_RETRIES" using Suc.prems(2) by simp
  have rest: "\<forall>j<n. \<exists>err. operation (Suc k + j) = Inl err \<and> rate_limited err"
  proof (intro allI impI)
    fix j assume "j < n"
    then have "Suc j < Suc n" by simp
    with Suc.prems(1) have "\<exists>err. operation (k + Suc j) = Inl err \<and> rate_limited err"
      by blast
    then show "\<exists>err. operation (Suc k + j) = Inl err \<and> rate_limited err" by simp
  qed
  have ih: "withRetry operation (Suc k) =
     (fst (withRetry operation (Suc k + n)),
      backoff_events (Suc k) n @ snd (withRetry operation (Suc k + n)))"
    using Suc.IH [OF rest] Suc.prems(2) by simp
  have "withRetry operation k =
     (fst (withRetry operation (Suc k)),
      Invoke k # Sleep (INITIAL_BACKOFF * 2 ^ k) # snd (withRetry operation (Suc k)))"
    using err lt by (subst withRetry.simps) (simp add: split_beta)
  also have "\<dots> = (fst (withRetry operation (k + Suc n)),
      backoff_events k (Suc n) @ snd (withRetry operation (k + Suc n)))"
    by (simp add: ih)
  finally show ?case .
qed

lemma backoff_events_4:
  "backoff_events 0 4 =
     [Invoke 0, Sleep 1000, Invoke 1, Sleep 2000, Invoke 2, Sleep 4000, Invoke 3, Sleep 8000]"
proof -
  have "backoff_events 0 (Suc (Suc (Suc (Suc 0)))) =
     [Invoke 0, Sleep 1000, Invoke 1, Sleep 2000, Invoke 2, Sleep 4000, Invoke 3, Sleep 8000]"
    by (simp add: INITIAL_BACKOFF_def)
  moreover have "(4::nat) = Suc (Suc (Suc (Suc 0)))" by simp
  ultimately show ?thesis by metis
qed

lemma backoff_events_5:
  "backoff_events 0 5 =
     [Invoke 0, Sleep 1000, Invoke 1, Sleep 2000, Invoke 2, Sleep 4000, Invoke 3, Sleep 8000,
      Invoke 4, Sleep 16000]"
proof -
  have "backoff_events 0 (Suc (Suc (Suc (Suc (Suc 0))))) =
     [Invoke 0, Sleep 1000, Invoke 1, Sleep 2000, Invoke 2, Sleep 4000, Invoke 3, Sleep 8000,
      Invoke 4, Sleep 16000]"
    by (simp add: INITIAL_BACKOFF_def)
  moreover have "(5::nat) = Suc (Suc (Suc (Suc (Suc 0))))" by simp
  ultimately show ?thesis by metis
qed

text \<open>
  C3. A failure whose message contains \<open>429\<close> is retried after sleeping
  \<open>INITIAL_BACKOFF * 2 ^ k\<close> at \<open>retryCount = k\<close>, for at most \<open>MAX_RETRIES = 5\<close>
  retries; when the retries are used up the last rate-limit error is the result,
  unmodified; a failure that is not rate-limited is the result at once, with no further
  invocation; and when attempts 1 to 4 fail rate-limited and attempt 5 succeeds, the
  result is attempt 5's value and there is no sixth invocation.
\<close>

theorem withRetry_policy:
  "((\<forall>j<n. \<exists>err. operation j = Inl err \<and> rate_limited err) \<and> n \<le> MAX_RETRIES \<and>
      operation n = Inr v \<longrightarrow>
      withRetry operation 0 = (Inr v, backoff_events 0 n @ [Invoke n])) \<and>
   ((\<forall>j<MAX_RETRIES. \<exists>err. operation j = Inl err \<and> rate_limited err) \<and>
      operation MAX_RETRIES = Inl e \<longrightarrow>
      withRetry operation 0 = (Inl e, backoff_events 0 MAX_RETRIES @ [Invoke MAX_RETRIES])) \<and>
   ((\<forall>j<n. \<exists>err. operation j = Inl err \<and> rate_limited err) \<and> n \<le> MAX_RETRIES \<and>
      operation n = Inl e \<and> \<not> rate_limited e \<longrightarrow>
      withRetry operation 0 = (Inl e, backoff_events 0 n @ [Invoke n])) \<and>
   ((\<forall>j<4. \<exists>err. operation j = Inl err \<and> rate_limited err) \<and> operation 4 = Inr v \<longrightarrow>
      withRetry operation 0 =
        (Inr v, [Invoke 0, Sleep 1000, Invoke 1, Sleep 2000, Invoke 2, Sleep 4000,
                 Invoke 3, Sleep 8000, Invoke 4]))"
proof (intro conjI impI)
  assume h: "(\<forall>j<n. \<exists>err. operation j = Inl err \<and> rate_limited err) \<and> n \<le> MAX_RETRIES \<and>
      operation n = Inr v"
  then show "withRetry operation 0 = (Inr v, backoff_events 0 n @ [Invoke n])"
    using withRetry_backoff [of n operation 0] withRetry_success [of operation n v] by simp
next
  assume h: "(\<forall>j<MAX_RETRIES. \<exists>err. operation j = Inl err \<and> rate_limited err) \<and>
      operation MAX_RETRIES = Inl e"
  then show "withRetry operation 0 =
      (Inl e, backoff_events 0 MAX_RETRIES @ [Invoke MAX_RETRIES])"
    using withRetry_backoff [of MAX_RETRIES operation 0]
      withRetry_give_up [of operation MAX_RETRIES e] by simp
next
  assume h: "(\<forall>j<n. \<exists>err. operation j = Inl err \<and> rate_limited err) \<and> n \<le> MAX_RETRIES \<and>
      operation n = Inl e \<and> \<not> rate_limited e"
  then show "withRetry operation 0 = (Inl e, backoff_events 0 n @ [Invoke n])"
    using withRetry_backoff [of n operation 0] withRetry_give_up [of operation n e] by simp
next
  assume h: "(\<forall>j<4. \<exists>err. operation j = Inl err \<and> rate_limited err) \<and> operation 4 = Inr v"
  show "withRetry operation 0 =
        (Inr v, [Invoke 0, Sleep 1000, Invoke 1, Sleep 2000, Invoke 2, Sleep 4000,
                 Invoke 3, Sleep 8000, Invoke 4])"
    using h withRetry_backoff [of 4 operation 0] withRetry_success [of operation 4 v]
    by (simp add: MAX_RETRIES_def backoff_events_4)
qed

theorem withRetry_policy_witness:
  "withRetry (\<lambda>k. if k < 4 then Inl (Error (Some ''HTTP 429'')) else Inr (7::nat)) 0 =
     (Inr 7, [Invoke 0, Sleep 1000, Invoke 1, Sleep 2000, Invoke 2, Sleep 4000,
              Invoke 3, Sleep 8000, Invoke 4]) \<and>
   withRetry (\<lambda>k. (Inl (Error (Some ''429 Too Many Requests'')) :: error + nat)) 0 =
     (Inl (Error (Some ''429 Too Many Requests'')),
      [Invoke 0, Sleep 1000, Invoke 1, Sleep 2000, Invoke 2, Sleep 4000,
       Invoke 3, Sleep 8000, Invoke 4, Sleep 16000, Invoke 5]) \<and>
   withRetry (\<lambda>k. if k < 1 then Inl (Error (Some ''HTTP 429''))
                   else (Inl (Error (Some ''socket hang up'')) :: error + nat)) 0 =
     (Inl (Error (Some ''socket hang up'')), [Invoke 0, Sleep 1000, Invoke 1])"
proof -
  have r1: "rate_limited (Error (Some ''HTTP 429''))"
    by (simp add: rate_limited_def)
  have r2: "rate_limited (Error (Some ''429 Too Many Requests''))"
    by (simp add: rate_limited_def)
  have r3: "\<not> rate_limited (Error (Some ''socket hang up''))"
    by (simp add: rate_limited_def)
  show ?thesis
    using
      withRetry_policy [of 4 "\<lambda>k. if k < 4 then Inl (Error (Some ''HTTP 429'')) else Inr (7::nat)"
        7 undefined]
      withRetry_policy [of 0 "\<lambda>k. (Inl (Error (Some ''429 Too Many Requests'')) :: error + nat)"
        undefined "Error (Some ''429 Too Many Requests'')"]
      withRetry_policy [of 1 "\<lambda>k. if k < 1 then Inl (Error (Some ''HTTP 429''))
                   else (Inl (Error (Some ''socket hang up'')) :: error + nat)" undefined
       "Error (Some ''socket hang up'')"]
    by (simp add: r1 r2 r3 MAX_RETRIES_def INITIAL_BACKOFF_def backoff_events_4 backoff_events_5)
qed

section \<open>The classifier\<close>

lemma pair_present_iff:
  "pair_present pre post \<longleftrightarrow>
     (\<exists>p q w a b. pre = Some p \<and> post = Some q \<and> owner p = Some w \<and> w \<noteq> [] \<and>
        uiTokenAmount p = Some a \<and> uiTokenAmount q = Some b)"
  by (auto simp: pair_present_def truthy_def split: option.splits)

lemma isTrade_loop_iff:
  "isTrade_loop preBals postBals i \<longleftrightarrow>
     (\<exists>j. i \<le> j \<and> j < length preBals \<and>
        pair_present (entry_at preBals j) (entry_at postBals j) \<and>
        the (uiTokenAmount (the (entry_at postBals j))) \<noteq>
          the (uiTokenAmount (the (entry_at preBals j))))"
proof (induction preBals postBals i rule: isTrade_loop.induct)
  case (1 preBals postBals i)
  let ?hit = "\<lambda>j. pair_present (entry_at preBals j) (entry_at postBals j) \<and>
        the (uiTokenAmount (the (entry_at postBals j))) \<noteq>
          the (uiTokenAmount (the (entry_at preBals j)))"
  show ?case
  proof (cases "i < length preBals")
    case False
    then show ?thesis by (subst isTrade_loop.simps) auto
  next
    case inside: True
    show ?thesis
    proof (cases "?hit i")
      case True
      then have "isTrade_loop preBals postBals i"
        using inside by (subst isTrade_loop.simps) (simp add: Let_def)
      moreover have "\<exists>j. i \<le> j \<and> j < length preBals \<and> ?hit j"
        using inside True by blast
      ultimately show ?thesis by blast
    next
      case False
      then have step: "isTrade_loop preBals postBals i = isTrade_loop preBals postBals (i + 1)"
        using inside by (subst isTrade_loop.simps) (auto simp: Let_def)
      have ih: "isTrade_loop preBals postBals (i + 1) \<longleftrightarrow>
          (\<exists>j. i + 1 \<le> j \<and> j < length preBals \<and> ?hit j)"
        using "1.IH" [OF inside refl refl] False by auto
      have "(\<exists>j. i + 1 \<le> j \<and> j < length preBals \<and> ?hit j) \<longleftrightarrow>
            (\<exists>j. i \<le> j \<and> j < length preBals \<and> ?hit j)"
      proof
        assume "\<exists>j. i + 1 \<le> j \<and> j < length preBals \<and> ?hit j"
        then obtain j where "i + 1 \<le> j" "j < length preBals" "?hit j" by blast
        then have "i \<le> j \<and> j < length preBals \<and> ?hit j" by simp
        then show "\<exists>j. i \<le> j \<and> j < length preBals \<and> ?hit j" by blast
      next
        assume "\<exists>j. i \<le> j \<and> j < length preBals \<and> ?hit j"
        then obtain j where j: "i \<le> j" "j < length preBals" "?hit j" by blast
        with False have "j \<noteq> i" by blast
        with j have "i + 1 \<le> j \<and> j < length preBals \<and> ?hit j" by simp
        then show "\<exists>j. i + 1 \<le> j \<and> j < length preBals \<and> ?hit j" by blast
      qed
      with step ih show ?thesis by simp
    qed
  qed
qed

text \<open>
  C7, as the code has it. \<open>isTradeTransaction\<close> is true exactly when both token-balance
  lists are there and at some index both entries are present, the entry of the list before
  execution has an owner that is not empty, both entries have an amount, and the amounts
  differ. Only the owner of the entry before execution is tested. With either list absent
  the right-hand side is false, and so is the result.
\<close>

theorem isTradeTransaction_iff:
  "isTradeTransaction transaction \<longleftrightarrow>
     (\<exists>tx m preBals postBals i p q w a b.
        transaction = Some tx \<and> meta tx = Some m \<and>
        preTokenBalances m = Some preBals \<and> postTokenBalances m = Some postBals \<and>
        i < length preBals \<and> i < length postBals \<and>
        preBals ! i = Some p \<and> postBals ! i = Some q \<and>
        owner p = Some w \<and> w \<noteq> [] \<and>
        uiTokenAmount p = Some a \<and> uiTokenAmount q = Some b \<and> a \<noteq> b)"
  (is "?L \<longleftrightarrow> ?R")
proof
  assume ?L
  then obtain tx m preBals postBals where
    t: "transaction = Some tx" "meta tx = Some m"
       "preTokenBalances m = Some preBals" "postTokenBalances m = Some postBals"
    and loop: "isTrade_loop preBals postBals 0"
    by (auto simp: isTradeTransaction_def split: option.splits)
  from loop obtain j where j: "j < length preBals"
      "pair_present (entry_at preBals j) (entry_at postBals j)"
      "the (uiTokenAmount (the (entry_at postBals j))) \<noteq>
         the (uiTokenAmount (the (entry_at preBals j)))"
    unfolding isTrade_loop_iff by blast
  from j(2) obtain p q w a b where
    e: "entry_at preBals j = Some p" "entry_at postBals j = Some q" "owner p = Some w" "w \<noteq> []"
       "uiTokenAmount p = Some a" "uiTokenAmount q = Some b"
    unfolding pair_present_iff by blast
  from e(2) have jq: "j < length postBals" "postBals ! j = Some q"
    by (auto simp: entry_at_def split: if_splits)
  from e(1) j(1) have jp: "preBals ! j = Some p" by (simp add: entry_at_def)
  from j(3) e have "a \<noteq> b" by auto
  with t j(1) jq jp e show ?R by blast
next
  assume ?R
  then obtain tx m preBals postBals i p q w a b where
    r: "transaction = Some tx" "meta tx = Some m"
       "preTokenBalances m = Some preBals" "postTokenBalances m = Some postBals"
       "i < length preBals" "i < length postBals"
       "preBals ! i = Some p" "postBals ! i = Some q"
       "owner p = Some w" "w \<noteq> []"
       "uiTokenAmount p = Some a" "uiTokenAmount q = Some b" "a \<noteq> b"
    by blast
  have "pair_present (entry_at preBals i) (entry_at postBals i)"
    unfolding pair_present_iff using r by (simp add: entry_at_def)
  moreover have "the (uiTokenAmount (the (entry_at postBals i))) \<noteq>
         the (uiTokenAmount (the (entry_at preBals i)))"
    using r by (simp add: entry_at_def)
  ultimately have "isTrade_loop preBals postBals 0"
    unfolding isTrade_loop_iff using r(5) by blast
  with r show ?L by (simp add: isTradeTransaction_def)
qed

theorem isTradeTransaction_iff_witness:
  "isTradeTransaction
     (Some \<lparr>meta = Some \<lparr>preBalances = None, postBalances = None,
        preTokenBalances = Some [Some \<lparr>owner = Some ''A'', uiTokenAmount = Some 1\<rparr>],
        postTokenBalances = Some [Some \<lparr>owner = Some ''A'', uiTokenAmount = Some 2\<rparr>]\<rparr>\<rparr>) \<and>
   \<not> isTradeTransaction
     (Some \<lparr>meta = Some \<lparr>preBalances = None, postBalances = None,
        preTokenBalances = None,
        postTokenBalances = Some [Some \<lparr>owner = Some ''A'', uiTokenAmount = Some 2\<rparr>]\<rparr>\<rparr>)"
  by (simp add: isTradeTransaction_iff)

text \<open>
  C7 as stated asks that both entries carry an owner. A pair whose entry after execution
  has no owner makes the transaction a trade all the same.
\<close>

theorem isTradeTransaction_post_owner_counterexample:
  "isTradeTransaction
     (Some \<lparr>meta = Some \<lparr>preBalances = None, postBalances = None,
        preTokenBalances = Some [Some \<lparr>owner = Some ''A'', uiTokenAmount = Some 1\<rparr>],
        postTokenBalances = Some [Some \<lparr>owner = None, uiTokenAmount = Some 2\<rparr>]\<rparr>\<rparr>) \<and>
   \<not> (\<exists>i p q. i < length [Some \<lparr>owner = Some ''A'', uiTokenAmount = Some (1::int)\<rparr>] \<and>
        [Some \<lparr>owner = Some ''A'', uiTokenAmount = Some (1::int)\<rparr>] ! i = Some p \<and>
        [Some \<lparr>owner = None, uiTokenAmount = Some (2::int)\<rparr>] ! i = Some q \<and>
        owner p \<noteq> None \<and> owner q \<noteq> None)"
  by (simp add: isTradeTransaction_def isTrade_loop.simps entry_at_def pair_present_def
      truthy_def)

section \<open>The ledger update\<close>

lemma map_fst_map_entry: "map fst (AList.map_entry k f xs) = map fst xs"
  by (induction xs) auto

lemma map_entry_append_new:
  "map_of xs k = None \<Longrightarrow> AList.map_entry k f (xs @ [(k, v)]) = xs @ [(k, f v)]"
  by (induction xs) (auto split: if_splits)


lemma apply_pair_skip:
  "\<not> pair_present pre post \<Longrightarrow> apply_pair l tv pre post = l"
  by (simp add: apply_pair_def)

lemma apply_pair_cases:
  "apply_pair l tv pre post = l \<or>
   (\<exists>address change. change \<noteq> 0 \<and> map_of l address = None \<and>
      apply_pair l tv pre post = l @ [(address, record_trade change tv new_trader)]) \<or>
   (\<exists>address change. change \<noteq> 0 \<and> map_of l address \<noteq> None \<and>
      apply_pair l tv pre post = AList.map_entry address (record_trade change tv) l)"
proof (cases "pair_present pre post \<and>
    the (uiTokenAmount (the post)) - the (uiTokenAmount (the pre)) \<noteq> 0")
  case False
  then show ?thesis by (auto simp: apply_pair_def Let_def)
next
  case True
  show ?thesis
  proof (cases "map_of l (the (owner (the pre)))")
    case None
    with True have "apply_pair l tv pre post =
        l @ [(the (owner (the pre)),
              record_trade (the (uiTokenAmount (the post)) - the (uiTokenAmount (the pre)))
                tv new_trader)]"
      by (simp add: apply_pair_def Let_def map_entry_append_new)
    with True None show ?thesis by blast
  next
    case (Some d)
    with True have "apply_pair l tv pre post =
        AList.map_entry (the (owner (the pre)))
          (record_trade (the (uiTokenAmount (the post)) - the (uiTokenAmount (the pre))) tv) l"
      by (simp add: apply_pair_def Let_def)
    with True Some show ?thesis by blast
  qed
qed

lemma map_of_apply_pair:
  assumes "owner p = Some w" "w \<noteq> []" "uiTokenAmount p = Some a" "uiTokenAmount q = Some b"
    "a \<noteq> b"
  shows "map_of (apply_pair l tv (Some p) (Some q)) =
     (map_of l)(w \<mapsto> record_trade (b - a) tv
                       (case map_of l w of None \<Rightarrow> new_trader | Some d \<Rightarrow> d))"
proof -
  have present: "pair_present (Some p) (Some q)"
    using assms by (simp add: pair_present_def truthy_def)
  show ?thesis
  proof (cases "map_of l w")
    case None
    then show ?thesis
      using assms present
      by (auto simp: apply_pair_def Let_def map_entry_append_new fun_eq_iff map_add_def
          split: option.splits)
  next
    case (Some d)
    then show ?thesis
      using assms present
      by (simp add: apply_pair_def Let_def map_of_map_entry fun_eq_iff)
  qed
qed

lemma distinct_apply_pair:
  assumes "distinct (map fst l)"
  shows "distinct (map fst (apply_pair l tv pre post))"
  using apply_pair_cases [of l tv pre post]
proof (elim disjE exE conjE)
  assume "apply_pair l tv pre post = l"
  with assms show ?thesis by simp
next
  fix address change
  assume "map_of l address = None"
    and eq: "apply_pair l tv pre post = l @ [(address, record_trade change tv new_trader)]"
  then have "address \<notin> fst ` set l" by (simp add: map_of_eq_None_iff)
  with assms eq show ?thesis by simp
next
  fix address change
  assume "apply_pair l tv pre post = AList.map_entry address (record_trade change tv) l"
  with assms show ?thesis by (simp add: map_fst_map_entry)
qed

lemma apply_loop_induct_rule:
  assumes "P l" "\<And>l pre post. P l \<Longrightarrow> P (apply_pair l tv pre post)"
  shows "P (apply_loop l tv preBals postBals i)"
  using assms(1)
proof (induction "length preBals - i" arbitrary: l i)
  case 0
  then show ?case by (subst apply_loop.simps) simp
next
  case (Suc n)
  then have inside: "i < length preBals" and n: "n = length preBals - (i + 1)" by simp_all
  have "P (apply_pair l tv (entry_at preBals i) (entry_at postBals i))"
    by (rule assms(2) [OF Suc.prems])
  from Suc.hyps(1) [OF n this] show ?case
    using inside by (subst apply_loop.simps) simp
qed

lemma process_transaction_cases:
  "process_transaction l transaction = l \<or>
   (\<exists>preBals postBals. calculateTradeValue transaction \<noteq> 0 \<and>
      process_transaction l transaction =
        apply_loop l (calculateTradeValue transaction) preBals postBals 0)"
proof (cases transaction)
  case None
  then show ?thesis by (simp add: process_transaction_def)
next
  case (Some tx)
  show ?thesis
  proof (cases "meta tx")
    case None
    with Some show ?thesis by (simp add: process_transaction_def)
  next
    case m: (Some m)
    show ?thesis
    proof (cases "isTradeTransaction transaction \<and> calculateTradeValue transaction \<noteq> 0")
      case False
      with Some m show ?thesis by (auto simp: process_transaction_def Let_def)
    next
      case True
      with Some m have "process_transaction l transaction =
          apply_loop l (calculateTradeValue transaction)
            (case preTokenBalances m of None \<Rightarrow> [] | Some xs \<Rightarrow> xs)
            (case postTokenBalances m of None \<Rightarrow> [] | Some xs \<Rightarrow> xs) 0"
        by (simp add: process_transaction_def Let_def)
      with True show ?thesis by blast
    qed
  qed
qed



lemma distinct_process_transaction:
  "distinct (map fst l) \<Longrightarrow> distinct (map fst (process_transaction l transaction))"
proof -
  assume d: "distinct (map fst l)"
  have "distinct (map fst (apply_loop l tv preBals postBals 0))" for tv preBals postBals
    by (rule apply_loop_induct_rule [where P = "\<lambda>l. distinct (map fst l)"])
       (simp_all add: d distinct_apply_pair)
  with d process_transaction_cases [of l transaction] show ?thesis by auto
qed

lemma distinct_foldl_process_transaction:
  "distinct (map fst l) \<Longrightarrow> distinct (map fst (foldl process_transaction l txs))"
  by (induction txs arbitrary: l) (simp_all add: distinct_process_transaction)

section \<open>Invariants of the ledger\<close>






















section \<open>Attribution of a balance change\<close>

text \<open>
  C5. One transaction with two qualifying pairs, wallet \<open>A\<close> gaining 5 display units
  (a raw change of \<open>5 * 10^9\<close>, which line 273 divides by \<open>1e9\<close>) and wallet \<open>B\<close>
  losing 5, and a trade value of 2.3, applied to the empty ledger: both wallets get the
  whole trade value as volume, and only \<open>A\<close> gets a successful trade.
\<close>

theorem two_sided_transaction:
  assumes "A \<noteq> B" "A \<noteq> []" "B \<noteq> []"
    and "meta tx = Some m"
    and "preTokenBalances m =
           Some [Some \<lparr>owner = Some A, uiTokenAmount = Some a\<rparr>,
                 Some \<lparr>owner = Some B, uiTokenAmount = Some b\<rparr>]"
    and "postTokenBalances m =
           Some [Some \<lparr>owner = ownerA', uiTokenAmount = Some (a + 5000000000)\<rparr>,
                 Some \<lparr>owner = ownerB', uiTokenAmount = Some (b - 5000000000)\<rparr>]"
    and "calculateTradeValue (Some tx) = 23 / 10"
  shows "process_transaction [] (Some tx) =
     [(A, \<lparr>profit = 5, trades = 1, totalVolume = 23 / 10, successfulTrades = 1,
           averageTradeSize = 23 / 10, solBalance = 0, usdProfit = 0\<rparr>),
      (B, \<lparr>profit = - 5, trades = 1, totalVolume = 23 / 10, successfulTrades = 0,
           averageTradeSize = 23 / 10, solBalance = 0, usdProfit = 0\<rparr>)]"
proof -
  have trade: "isTradeTransaction (Some tx)"
    using assms
    by (simp add: isTradeTransaction_def isTrade_loop.simps pair_present_def truthy_def
        entry_at_def Let_def)
  have nonzero: "calculateTradeValue (Some tx) \<noteq> 0"
    by (simp add: assms(7))
  have "apply_loop [] (calculateTradeValue (Some tx))
          [Some \<lparr>owner = Some A, uiTokenAmount = Some a\<rparr>,
           Some \<lparr>owner = Some B, uiTokenAmount = Some b\<rparr>]
          [Some \<lparr>owner = ownerA', uiTokenAmount = Some (a + 5000000000)\<rparr>,
           Some \<lparr>owner = ownerB', uiTokenAmount = Some (b - 5000000000)\<rparr>] 0 =
     [(A, \<lparr>profit = 5, trades = 1, totalVolume = 23 / 10, successfulTrades = 1,
           averageTradeSize = 23 / 10, solBalance = 0, usdProfit = 0\<rparr>),
      (B, \<lparr>profit = - 5, trades = 1, totalVolume = 23 / 10, successfulTrades = 0,
           averageTradeSize = 23 / 10, solBalance = 0, usdProfit = 0\<rparr>)]"
    unfolding assms(7) using assms(1-3)
    by (simp add: apply_loop.simps apply_pair_def pair_present_def truthy_def entry_at_def
        record_trade_def new_trader_def Let_def)
  with trade nonzero assms(4-6) show ?thesis
    by (simp add: process_transaction_def Let_def)
qed

theorem two_sided_transaction_witness:
  "process_transaction []
     (Some \<lparr>meta = Some \<lparr>preBalances = Some [2300000000, 10], postBalances = Some [0, 10],
        preTokenBalances =
          Some [Some \<lparr>owner = Some ''walletA'', uiTokenAmount = Some 1000000000\<rparr>,
                Some \<lparr>owner = Some ''walletB'', uiTokenAmount = Some 7000000000\<rparr>],
        postTokenBalances =
          Some [Some \<lparr>owner = Some ''walletA'', uiTokenAmount = Some 6000000000\<rparr>,
                Some \<lparr>owner = Some ''walletB'', uiTokenAmount = Some 2000000000\<rparr>]\<rparr>\<rparr>) =
     [(''walletA'', \<lparr>profit = 5, trades = 1, totalVolume = 23 / 10, successfulTrades = 1,
           averageTradeSize = 23 / 10, solBalance = 0, usdProfit = 0\<rparr>),
      (''walletB'', \<lparr>profit = - 5, trades = 1, totalVolume = 23 / 10, successfulTrades = 0,
           averageTradeSize = 23 / 10, solBalance = 0, usdProfit = 0\<rparr>)]"
proof -
  have tv: "calculateTradeValue
     (Some \<lparr>meta = Some \<lparr>preBalances = Some [2300000000, 10], postBalances = Some [0, 10],
        preTokenBalances =
          Some [Some \<lparr>owner = Some ''walletA'', uiTokenAmount = Some 1000000000\<rparr>,
                Some \<lparr>owner = Some ''walletB'', uiTokenAmount = Some 7000000000\<rparr>],
        postTokenBalances =
          Some [Some \<lparr>owner = Some ''walletA'', uiTokenAmount = Some 6000000000\<rparr>,
                Some \<lparr>owner = Some ''walletB'', uiTokenAmount = Some 2000000000\<rparr>]\<rparr>\<rparr>) = 23 / 10"
    by (simp add: calculateTradeValue_def tradeValue_loop.simps LAMPORTS_PER_SOL_def Let_def)
  show ?thesis
    using tv two_sided_transaction [where A = "''walletA''" and B = "''walletB''"
      and a = 1000000000 and b = 7000000000
      and ownerA' = "Some ''walletA''" and ownerB' = "Some ''walletB''"
      and m = "\<lparr>preBalances = Some [2300000000, 10], postBalances = Some [0, 10],
        preTokenBalances =
          Some [Some \<lparr>owner = Some ''walletA'', uiTokenAmount = Some 1000000000\<rparr>,
                Some \<lparr>owner = Some ''walletB'', uiTokenAmount = Some 7000000000\<rparr>],
        postTokenBalances =
          Some [Some \<lparr>owner = Some ''walletA'', uiTokenAmount = Some 6000000000\<rparr>,
                Some \<lparr>owner = Some ''walletB'', uiTokenAmount = Some 2000000000\<rparr>]\<rparr>"
      and tx = "\<lparr>meta = Some \<lparr>preBalances = Some [2300000000, 10], postBalances = Some [0, 10],
        preTokenBalances =
          Some [Some \<lparr>owner = Some ''walletA'', uiTokenAmount = Some 1000000000\<rparr>,
                Some \<lparr>owner = Some ''walletB'', uiTokenAmount = Some 7000000000\<rparr>],
        postTokenBalances =
          Some [Some \<lparr>owner = Some ''walletA'', uiTokenAmount = Some 6000000000\<rparr>,
                Some \<lparr>owner = Some ''walletB'', uiTokenAmount = Some 2000000000\<rparr>]\<rparr>\<rparr>"]
    by simp
qed

lemma entry_at_map:
  "entry_at (map (map_option f) xs) i = map_option f (entry_at xs i)"
  by (simp add: entry_at_def)

lemma pair_present_post_owner:
  "pair_present pre (map_option (\<lambda>q. q\<lparr>owner := g q\<rparr>) post) = pair_present pre post"
  by (cases post) (simp_all add: pair_present_def split: option.splits)

lemma post_amount_post_owner:
  "post \<noteq> None \<Longrightarrow>
   uiTokenAmount (the (map_option (\<lambda>q. q\<lparr>owner := g q\<rparr>) post)) = uiTokenAmount (the post)"
  by (cases post) simp_all

lemma pair_present_post: "pair_present pre post \<Longrightarrow> post \<noteq> None"
  by (auto simp: pair_present_def split: option.splits)

lemma apply_pair_post_owner:
  "apply_pair l tv pre (map_option (\<lambda>q. q\<lparr>owner := g q\<rparr>) post) = apply_pair l tv pre post"
proof (cases "pair_present pre post")
  case True
  then show ?thesis
    using pair_present_post [OF True]
    by (simp add: apply_pair_def pair_present_post_owner post_amount_post_owner)
next
  case False
  then show ?thesis by (simp add: apply_pair_def pair_present_post_owner)
qed

lemma isTrade_loop_post_owner:
  "isTrade_loop preBals (map (map_option (\<lambda>q. q\<lparr>owner := g q\<rparr>)) postBals) i =
   isTrade_loop preBals postBals i"
proof -
  have "(pair_present (entry_at preBals j)
           (map_option (\<lambda>q. q\<lparr>owner := g q\<rparr>) (entry_at postBals j)) \<and>
         the (uiTokenAmount (the (map_option (\<lambda>q. q\<lparr>owner := g q\<rparr>) (entry_at postBals j)))) \<noteq>
           the (uiTokenAmount (the (entry_at preBals j)))) =
        (pair_present (entry_at preBals j) (entry_at postBals j) \<and>
         the (uiTokenAmount (the (entry_at postBals j))) \<noteq>
           the (uiTokenAmount (the (entry_at preBals j))))" for j
    using pair_present_post [of "entry_at preBals j" "entry_at postBals j"]
    by (auto simp: pair_present_post_owner post_amount_post_owner)
  then show ?thesis by (simp add: isTrade_loop_iff entry_at_map)
qed

lemma apply_loop_post_owner:
  "apply_loop l tv preBals (map (map_option (\<lambda>q. q\<lparr>owner := g q\<rparr>)) postBals) i =
   apply_loop l tv preBals postBals i"
proof (induction "length preBals - i" arbitrary: l i)
  case 0
  then show ?case by (subst apply_loop.simps, subst (2) apply_loop.simps) simp
next
  case (Suc n)
  then have inside: "i < length preBals" and n: "n = length preBals - (i + 1)" by simp_all
  show ?case
    using inside Suc.hyps(1) [OF n]
    by (subst apply_loop.simps, subst (2) apply_loop.simps)
       (simp add: entry_at_map apply_pair_post_owner)
qed

lemma process_transaction_post_owner:
  "process_transaction l
     (Some (tx\<lparr>meta := Some (m\<lparr>postTokenBalances :=
        map_option (map (map_option (\<lambda>q. q\<lparr>owner := g q\<rparr>))) (postTokenBalances m)\<rparr>)\<rparr>)) =
   process_transaction l (Some (tx\<lparr>meta := Some m\<rparr>))"
  by (cases "postTokenBalances m"; cases "preTokenBalances m")
     (simp_all add: process_transaction_def isTradeTransaction_def calculateTradeValue_def
        isTrade_loop_post_owner apply_loop_post_owner Let_def cong: option.case_cong)

text \<open>
  C9. The update for a pair goes to the address in the owner field of the entry before
  execution. The owner of the entry after execution is never read: changing it changes
  neither the test for a qualifying pair nor the ledger, nor what \<open>process_transaction\<close>
  does with a whole transaction. A qualifying pair changes the record of the owner before
  execution and no other record, whoever owns the entry after execution; a pair whose
  entry before execution has no owner, or an empty one, leaves the ledger as it is.
\<close>

theorem attribution_to_pre_owner:
  "pair_present pre (Some (q\<lparr>owner := other\<rparr>)) = pair_present pre (Some q) \<and>
   apply_pair l tv pre (Some (q\<lparr>owner := other\<rparr>)) = apply_pair l tv pre (Some q) \<and>
   (owner p = Some w \<and> w \<noteq> [] \<and> uiTokenAmount p = Some a \<and> uiTokenAmount q = Some b \<and>
      a \<noteq> b \<longrightarrow>
      map_of (apply_pair l tv (Some p) (Some q)) w =
        Some (record_trade (b - a) tv (case map_of l w of None \<Rightarrow> new_trader | Some d \<Rightarrow> d)) \<and>
      (\<forall>k. k \<noteq> w \<longrightarrow> map_of (apply_pair l tv (Some p) (Some q)) k = map_of l k)) \<and>
   (\<not> truthy (owner p) \<longrightarrow> apply_pair l tv (Some p) post = l) \<and>
   process_transaction l
     (Some (tx\<lparr>meta := Some (m\<lparr>postTokenBalances :=
        map_option (map (map_option (\<lambda>q. q\<lparr>owner := g q\<rparr>))) (postTokenBalances m)\<rparr>)\<rparr>)) =
   process_transaction l (Some (tx\<lparr>meta := Some m\<rparr>))"
proof (intro conjI impI)
  show "pair_present pre (Some (q\<lparr>owner := other\<rparr>)) = pair_present pre (Some q)"
    by (simp add: pair_present_def split: option.splits)
  then show "apply_pair l tv pre (Some (q\<lparr>owner := other\<rparr>)) = apply_pair l tv pre (Some q)"
    by (simp add: apply_pair_def)
next
  assume h: "owner p = Some w \<and> w \<noteq> [] \<and> uiTokenAmount p = Some a \<and>
    uiTokenAmount q = Some b \<and> a \<noteq> b"
  then have m: "map_of (apply_pair l tv (Some p) (Some q)) =
     (map_of l)(w \<mapsto> record_trade (b - a) tv
                       (case map_of l w of None \<Rightarrow> new_trader | Some d \<Rightarrow> d))"
    by (intro map_of_apply_pair) simp_all
  show "map_of (apply_pair l tv (Some p) (Some q)) w =
        Some (record_trade (b - a) tv (case map_of l w of None \<Rightarrow> new_trader | Some d \<Rightarrow> d))"
    by (simp add: m)
  show "\<forall>k. k \<noteq> w \<longrightarrow> map_of (apply_pair l tv (Some p) (Some q)) k = map_of l k"
    by (simp add: m)
next
  assume "\<not> truthy (owner p)"
  then show "apply_pair l tv (Some p) post = l"
    by (simp add: apply_pair_def pair_present_def split: option.splits)
next
  show "process_transaction l
     (Some (tx\<lparr>meta := Some (m\<lparr>postTokenBalances :=
        map_option (map (map_option (\<lambda>q. q\<lparr>owner := g q\<rparr>))) (postTokenBalances m)\<rparr>)\<rparr>)) =
   process_transaction l (Some (tx\<lparr>meta := Some m\<rparr>))"
    by (rule process_transaction_post_owner)
qed

theorem attribution_to_pre_owner_witness:
  "map_of (apply_pair [] 1 (Some \<lparr>owner = Some ''A'', uiTokenAmount = Some 1\<rparr>)
             (Some \<lparr>owner = Some ''B'', uiTokenAmount = Some 3\<rparr>)) ''A'' =
     Some \<lparr>profit = 2 / 1000000000, trades = 1, totalVolume = 1, successfulTrades = 1,
           averageTradeSize = 1, solBalance = 0, usdProfit = 0\<rparr> \<and>
   map_of (apply_pair [] 1 (Some \<lparr>owner = Some ''A'', uiTokenAmount = Some 1\<rparr>)
             (Some \<lparr>owner = Some ''B'', uiTokenAmount = Some 3\<rparr>)) ''B'' = None \<and>
   apply_pair [] 1 (Some \<lparr>owner = None, uiTokenAmount = Some 1\<rparr>)
     (Some \<lparr>owner = Some ''B'', uiTokenAmount = Some 3\<rparr>) = []"
  using
    attribution_to_pre_owner [where p = "\<lparr>owner = Some ''A'', uiTokenAmount = Some 1\<rparr>"
      and q = "\<lparr>owner = Some ''B'', uiTokenAmount = Some 3\<rparr>" and w = "''A''"
      and a = 1 and b = 3 and l = "[]" and tv = 1]
    attribution_to_pre_owner [where p = "\<lparr>owner = None, uiTokenAmount = Some 1\<rparr>"
      and post = "Some \<lparr>owner = Some ''B'', uiTokenAmount = Some 3\<rparr>" and l = "[]" and tv = 1]
  by (simp add: truthy_def record_trade_def new_trader_def Let_def)

section \<open>The report\<close>

lemma map_entry_distinct:
  "distinct (map fst xs) \<Longrightarrow>
   AList.map_entry k f xs = map (\<lambda>e. if fst e = k then (fst e, f (snd e)) else e) xs"
proof (induction xs)
  case Nil
  then show ?case by simp
next
  case (Cons x xs)
  show ?case
  proof (cases "fst x = k")
    case True
    with Cons.prems have "k \<notin> fst ` set xs" by simp
    then have "map (\<lambda>e. if fst e = k then (fst e, f (snd e)) else e) xs = xs"
      by (intro map_idI) auto
    with True show ?thesis by simp
  next
    case False
    with Cons show ?thesis by simp
  qed
qed

lemma update_balance_fields:
  "profit (update_balance prov p a d) = profit d"
  "trades (update_balance prov p a d) = trades d"
  "totalVolume (update_balance prov p a d) = totalVolume d"
  "successfulTrades (update_balance prov p a d) = successfulTrades d"
  "averageTradeSize (update_balance prov p a d) = averageTradeSize d"
  "solBalance (update_balance prov p a d) = getWalletSolBalance prov a"
  "usdProfit (update_balance prov p a d) = profit d * p"
  by (simp_all add: update_balance_def Let_def)

lemma update_balance_eq:
  "update_balance prov p a d =
     d\<lparr>solBalance := getWalletSolBalance prov a, usdProfit := profit d * p\<rparr>"
  by (simp add: update_balance_def Let_def)

lemma update_balance_twice:
  "update_balance prov p a (update_balance prov p a d) = update_balance prov p a d"
  by (simp add: update_balance_eq)

lemma update_balances_distinct:
  "distinct (map fst l) \<Longrightarrow>
   update_balances prov p addrs l =
     map (\<lambda>e. if fst e \<in> set addrs then (fst e, update_balance prov p (fst e) (snd e)) else e) l"
proof (induction addrs arbitrary: l)
  case Nil
  then show ?case by simp
next
  case (Cons a addrs)
  have d: "distinct (map fst (AList.map_entry a (update_balance prov p a) l))"
    using Cons.prems by (rule distinct_map_entry)
  have "update_balances prov p (a # addrs) l =
      update_balances prov p addrs (AList.map_entry a (update_balance prov p a) l)"
    by simp
  also have "\<dots> =
      map (\<lambda>e. if fst e \<in> set addrs then (fst e, update_balance prov p (fst e) (snd e)) else e)
        (AList.map_entry a (update_balance prov p a) l)"
    by (rule Cons.IH [OF d])
  also have "\<dots> =
      map (\<lambda>e. if fst e \<in> set addrs then (fst e, update_balance prov p (fst e) (snd e)) else e)
        (map (\<lambda>e. if fst e = a then (fst e, update_balance prov p a (snd e)) else e) l)"
    by (simp only: map_entry_distinct [OF Cons.prems])
  also have "\<dots> =
      map (\<lambda>e. if fst e \<in> set (a # addrs)
                then (fst e, update_balance prov p (fst e) (snd e)) else e) l"
    by (auto simp: update_balance_twice)
  finally show ?case .
qed

lemma eligibleTraders_subset: "set (eligibleTraders l) \<subseteq> {e \<in> set l. eligible (snd e)}"
proof -
  have "set (eligibleTraders l) \<subseteq>
      set (sort_key (\<lambda>entry. - profit (snd entry)) (filter (\<lambda>entry. eligible (snd entry)) l))"
    unfolding eligibleTraders_def by (rule set_take_subset)
  then show ?thesis by auto
qed

lemma eligibleTraders_length: "length (eligibleTraders l) \<le> 10"
  by (simp add: eligibleTraders_def)

lemma eligibleTraders_sorted:
  "sorted_wrt (\<lambda>x y. profit (snd x) \<ge> profit (snd y)) (eligibleTraders l)"
proof -
  let ?ys = "sort_key (\<lambda>entry. - profit (snd entry)) (filter (\<lambda>entry. eligible (snd entry)) l)"
  have "sorted (map (\<lambda>entry. - profit (snd entry)) ?ys)"
    by (rule sorted_sort_key)
  then have "sorted_wrt (\<lambda>x y. - profit (snd x) \<le> - profit (snd y)) ?ys"
    by (simp add: sorted_map)
  then have "sorted_wrt (\<lambda>x y. profit (snd x) \<ge> profit (snd y)) ?ys"
    by simp
  then show ?thesis
    unfolding eligibleTraders_def by (rule sorted_wrt_take)
qed

lemma map_of_distinct_entry:
  "distinct (map fst l) \<Longrightarrow> e \<in> set l \<Longrightarrow> map_of l (fst e) = Some (snd e)"
  by (cases e) simp

lemma displayResults_ledger:
  assumes "distinct (map fst l)"
  shows "fst (displayResults prov l p) =
     map (\<lambda>e. if fst e \<in> fst ` set (eligibleTraders l)
               then (fst e, update_balance prov p (fst e) (snd e)) else e) l"
  using assms by (simp add: displayResults_def Let_def update_balances_distinct)

lemma displayResults_rows:
  assumes "distinct (map fst l)"
  shows "snd (displayResults prov l p) =
     map (\<lambda>e. (fst e, update_balance prov p (fst e) (snd e))) (eligibleTraders l)"
proof -
  let ?upd = "\<lambda>e. if fst e \<in> fst ` set (eligibleTraders l)
               then (fst e, update_balance prov p (fst e) (snd e)) else e"
  have "fst (?upd e) = fst e" for e by simp
  then have keys: "map fst (map ?upd l) = map fst l"
    by (induction l) simp_all
  have "the (map_of (map ?upd l) (fst e)) = update_balance prov p (fst e) (snd e)"
    if e: "e \<in> set (eligibleTraders l)" for e
  proof -
    from e eligibleTraders_subset [of l] have "e \<in> set l" by blast
    then have "?upd e \<in> ?upd ` set l" by (rule imageI)
    then have "?upd e \<in> set (map ?upd l)" by simp
    moreover have "?upd e = (fst e, update_balance prov p (fst e) (snd e))"
      using e by simp
    ultimately have mem: "(fst e, update_balance prov p (fst e) (snd e)) \<in> set (map ?upd l)"
      by simp
    have dist: "distinct (map fst (map ?upd l))" unfolding keys by (rule assms)
    have "map_of (map ?upd l) (fst e) = Some (update_balance prov p (fst e) (snd e))"
      by (rule map_of_is_SomeI [OF dist mem])
    then show ?thesis by simp
  qed
  then have "map (\<lambda>address. (address, the (map_of (map ?upd l) address)))
               (map fst (eligibleTraders l)) =
             map (\<lambda>e. (fst e, update_balance prov p (fst e) (snd e))) (eligibleTraders l)"
    by simp
  then show ?thesis
    using assms by (simp add: displayResults_def Let_def update_balances_distinct)
qed

lemma displayResults_example:
  "displayResults
     \<lparr>getSignaturesForAddress = \<lambda>n before k. Inr [],
         getTransaction = \<lambda>sig k. Inr None,
         getBalance = \<lambda>address. Inr 3000000000\<rparr>
     [(''w1'', \<lparr>profit = 10, trades = 4, totalVolume = 8, successfulTrades = 3,
                 averageTradeSize = 2, solBalance = 0, usdProfit = 0\<rparr>),
         (''w2'', \<lparr>profit = 10, trades = 4, totalVolume = 8, successfulTrades = 2,
                 averageTradeSize = 2, solBalance = 0, usdProfit = 0\<rparr>),
         (''w3'', \<lparr>profit = 20, trades = 5, totalVolume = 5, successfulTrades = 4,
                 averageTradeSize = 1, solBalance = 0, usdProfit = 0\<rparr>)] 150 =
   ([(''w1'', \<lparr>profit = 10, trades = 4, totalVolume = 8, successfulTrades = 3,
             averageTradeSize = 2, solBalance = 3, usdProfit = 1500\<rparr>),
     (''w2'', \<lparr>profit = 10, trades = 4, totalVolume = 8, successfulTrades = 2,
             averageTradeSize = 2, solBalance = 0, usdProfit = 0\<rparr>),
     (''w3'', \<lparr>profit = 20, trades = 5, totalVolume = 5, successfulTrades = 4,
             averageTradeSize = 1, solBalance = 3, usdProfit = 3000\<rparr>)],
    [(''w3'', \<lparr>profit = 20, trades = 5, totalVolume = 5, successfulTrades = 4,
             averageTradeSize = 1, solBalance = 3, usdProfit = 3000\<rparr>),
     (''w1'', \<lparr>profit = 10, trades = 4, totalVolume = 8, successfulTrades = 3,
             averageTradeSize = 2, solBalance = 3, usdProfit = 1500\<rparr>)])"
  by (simp add: displayResults_def eligibleTraders_def eligible_def MIN_TRADES_def
      update_balance_def getWalletSolBalance_def LAMPORTS_PER_SOL_def Let_def)

text \<open>
  C4. The rows of the table \<open>displayResults\<close> prints: every row has \<open>trades \<ge> 3\<close>,
  \<open>profit > 0\<close> and \<open>successfulTrades / trades > 0.5\<close>, so that a record whose win rate
  is exactly 0.5 has no row; the rows are in descending order of profit; and there are at
  most 10 of them. The ledger is an object, whose keys are distinct.
\<close>

theorem top_traders_report:
  assumes "distinct (map fst l)"
  shows "(\<forall>(a, d) \<in> set (snd (displayResults prov l p)).
            3 \<le> trades d \<and> 0 < profit d \<and> 1 / 2 < successfulTrades d / trades d) \<and>
         (\<forall>(a, d) \<in> set l. successfulTrades d / trades d = 1 / 2 \<longrightarrow>
            a \<notin> fst ` set (snd (displayResults prov l p))) \<and>
         sorted_wrt (\<lambda>x y. profit (snd x) \<ge> profit (snd y)) (snd (displayResults prov l p)) \<and>
         length (snd (displayResults prov l p)) \<le> 10"
proof (intro conjI)
  note rows = displayResults_rows [OF assms, of prov p]
  show "\<forall>(a, d) \<in> set (snd (displayResults prov l p)).
            3 \<le> trades d \<and> 0 < profit d \<and> 1 / 2 < successfulTrades d / trades d"
  proof (clarify)
    fix a d
    assume "(a, d) \<in> set (snd (displayResults prov l p))"
    then obtain e where e: "e \<in> set (eligibleTraders l)"
      and d: "d = update_balance prov p (fst e) (snd e)"
      unfolding rows by auto
    from e eligibleTraders_subset [of l] have "eligible (snd e)" by blast
    then show "3 \<le> trades d \<and> 0 < profit d \<and> 1 / 2 < successfulTrades d / trades d"
      by (simp add: d update_balance_fields eligible_def MIN_TRADES_def)
  qed
  show "\<forall>(a, d) \<in> set l. successfulTrades d / trades d = 1 / 2 \<longrightarrow>
            a \<notin> fst ` set (snd (displayResults prov l p))"
  proof -
    have False
      if ad: "(a, d) \<in> set l" and half: "successfulTrades d / trades d = 1 / 2"
        and row: "a \<in> fst ` set (snd (displayResults prov l p))" for a d
    proof -
      from row obtain e where e: "e \<in> set (eligibleTraders l)" and a: "a = fst e"
        unfolding rows by auto
      from e eligibleTraders_subset [of l] have el: "e \<in> set l" "eligible (snd e)" by blast+
      from map_of_distinct_entry [OF assms el(1)] map_of_distinct_entry [OF assms ad] a
      have "snd e = d" by simp
      with el(2) half show False by (simp add: eligible_def)
    qed
    then show ?thesis by auto
  qed
  have "sorted_wrt (\<lambda>x y. profit (snd x) \<ge> profit (snd y))
          (map (\<lambda>e. (fst e, update_balance prov p (fst e) (snd e))) (eligibleTraders l))"
    using eligibleTraders_sorted [of l]
    by (simp add: sorted_wrt_map update_balance_fields)
  then show "sorted_wrt (\<lambda>x y. profit (snd x) \<ge> profit (snd y))
      (snd (displayResults prov l p))"
    by (simp only: rows)
  show "length (snd (displayResults prov l p)) \<le> 10"
    by (simp add: rows eligibleTraders_length)
qed

theorem top_traders_report_witness:
  "snd (displayResults
     \<lparr>getSignaturesForAddress = \<lambda>n before k. Inr [],
         getTransaction = \<lambda>sig k. Inr None,
         getBalance = \<lambda>address. Inr 3000000000\<rparr>
     [(''w1'', \<lparr>profit = 10, trades = 4, totalVolume = 8, successfulTrades = 3,
                 averageTradeSize = 2, solBalance = 0, usdProfit = 0\<rparr>),
         (''w2'', \<lparr>profit = 10, trades = 4, totalVolume = 8, successfulTrades = 2,
                 averageTradeSize = 2, solBalance = 0, usdProfit = 0\<rparr>),
         (''w3'', \<lparr>profit = 20, trades = 5, totalVolume = 5, successfulTrades = 4,
                 averageTradeSize = 1, solBalance = 0, usdProfit = 0\<rparr>)] 150) =
    [(''w3'', \<lparr>profit = 20, trades = 5, totalVolume = 5, successfulTrades = 4,
             averageTradeSize = 1, solBalance = 3, usdProfit = 3000\<rparr>),
     (''w1'', \<lparr>profit = 10, trades = 4, totalVolume = 8, successfulTrades = 3,
             averageTradeSize = 2, solBalance = 3, usdProfit = 1500\<rparr>)] \<and>
   ''w2'' \<notin> fst ` set (snd (displayResults
     \<lparr>getSignaturesForAddress = \<lambda>n before k. Inr [],
         getTransaction = \<lambda>sig k. Inr None,
         getBalance = \<lambda>address. Inr 3000000000\<rparr>
     [(''w1'', \<lparr>profit = 10, trades = 4, totalVolume = 8, successfulTrades = 3,
                 averageTradeSize = 2, solBalance = 0, usdProfit = 0\<rparr>),
         (''w2'', \<lparr>profit = 10, trades = 4, totalVolume = 8, successfulTrades = 2,
                 averageTradeSize = 2, solBalance = 0, usdProfit = 0\<rparr>),
         (''w3'', \<lparr>profit = 20, trades = 5, totalVolume = 5, successfulTrades = 4,
                 averageTradeSize = 1, solBalance = 0, usdProfit = 0\<rparr>)] 150))"
  using top_traders_report [of
     "[(''w1'', \<lparr>profit = 10, trades = 4, totalVolume = 8, successfulTrades = 3,
                 averageTradeSize = 2, solBalance = 0, usdProfit = 0\<rparr>),
         (''w2'', \<lparr>profit = 10, trades = 4, totalVolume = 8, successfulTrades = 2,
                 averageTradeSize = 2, solBalance = 0, usdProfit = 0\<rparr>),
         (''w3'', \<lparr>profit = 20, trades = 5, totalVolume = 5, successfulTrades = 4,
                 averageTradeSize = 1, solBalance = 0, usdProfit = 0\<rparr>)]"
     "\<lparr>getSignaturesForAddress = \<lambda>n before k. Inr [],
         getTransaction = \<lambda>sig k. Inr None,
         getBalance = \<lambda>address. Inr 3000000000\<rparr>" 150]
  by (simp add: displayResults_example)

text \<open>
  C10. A call of \<open>displayResults\<close> keeps the keys of the ledger and their order. The
  records that have a row, at most 10, get \<open>solBalance\<close> and \<open>usdProfit\<close> assigned and
  nothing else; every record keeps \<open>profit\<close>, \<open>trades\<close>, \<open>totalVolume\<close>,
  \<open>successfulTrades\<close> and \<open>averageTradeSize\<close>, and a record without a row is unchanged.
\<close>

theorem displayResults_frame:
  assumes "distinct (map fst l)"
  shows "length (snd (displayResults prov l p)) \<le> 10 \<and>
         length (fst (displayResults prov l p)) = length l \<and>
         (\<forall>i < length l.
            fst (fst (displayResults prov l p) ! i) = fst (l ! i) \<and>
            profit (snd (fst (displayResults prov l p) ! i)) = profit (snd (l ! i)) \<and>
            trades (snd (fst (displayResults prov l p) ! i)) = trades (snd (l ! i)) \<and>
            totalVolume (snd (fst (displayResults prov l p) ! i)) = totalVolume (snd (l ! i)) \<and>
            successfulTrades (snd (fst (displayResults prov l p) ! i)) =
              successfulTrades (snd (l ! i)) \<and>
            averageTradeSize (snd (fst (displayResults prov l p) ! i)) =
              averageTradeSize (snd (l ! i)) \<and>
            (fst (l ! i) \<notin> fst ` set (snd (displayResults prov l p)) \<longrightarrow>
               fst (displayResults prov l p) ! i = l ! i) \<and>
            (fst (l ! i) \<in> fst ` set (snd (displayResults prov l p)) \<longrightarrow>
               snd (fst (displayResults prov l p) ! i) =
                 (snd (l ! i))\<lparr>solBalance := getWalletSolBalance prov (fst (l ! i)),
                               usdProfit := profit (snd (l ! i)) * p\<rparr>))"
proof -
  have keys: "fst ` set (snd (displayResults prov l p)) = fst ` set (eligibleTraders l)"
    by (simp add: displayResults_rows [OF assms] image_image)
  show ?thesis
    unfolding keys displayResults_ledger [OF assms]
    by (simp add: displayResults_rows [OF assms] eligibleTraders_length update_balance_fields
        update_balance_eq)
qed

theorem displayResults_frame_witness:
  "fst (displayResults
     \<lparr>getSignaturesForAddress = \<lambda>n before k. Inr [],
         getTransaction = \<lambda>sig k. Inr None,
         getBalance = \<lambda>address. Inr 3000000000\<rparr>
     [(''w1'', \<lparr>profit = 10, trades = 4, totalVolume = 8, successfulTrades = 3,
                 averageTradeSize = 2, solBalance = 0, usdProfit = 0\<rparr>),
         (''w2'', \<lparr>profit = 10, trades = 4, totalVolume = 8, successfulTrades = 2,
                 averageTradeSize = 2, solBalance = 0, usdProfit = 0\<rparr>),
         (''w3'', \<lparr>profit = 20, trades = 5, totalVolume = 5, successfulTrades = 4,
                 averageTradeSize = 1, solBalance = 0, usdProfit = 0\<rparr>)] 150) =
   [(''w1'', \<lparr>profit = 10, trades = 4, totalVolume = 8, successfulTrades = 3,
             averageTradeSize = 2, solBalance = 3, usdProfit = 1500\<rparr>),
     (''w2'', \<lparr>profit = 10, trades = 4, totalVolume = 8, successfulTrades = 2,
             averageTradeSize = 2, solBalance = 0, usdProfit = 0\<rparr>),
     (''w3'', \<lparr>profit = 20, trades = 5, totalVolume = 5, successfulTrades = 4,
             averageTradeSize = 1, solBalance = 3, usdProfit = 3000\<rparr>)] \<and>
   length (snd (displayResults
     \<lparr>getSignaturesForAddress = \<lambda>n before k. Inr [],
         getTransaction = \<lambda>sig k. Inr None,
         getBalance = \<lambda>address. Inr 3000000000\<rparr>
     [(''w1'', \<lparr>profit = 10, trades = 4, totalVolume = 8, successfulTrades = 3,
                 averageTradeSize = 2, solBalance = 0, usdProfit = 0\<rparr>),
         (''w2'', \<lparr>profit = 10, trades = 4, totalVolume = 8, successfulTrades = 2,
                 averageTradeSize = 2, solBalance = 0, usdProfit = 0\<rparr>),
         (''w3'', \<lparr>profit = 20, trades = 5, totalVolume = 5, successfulTrades = 4,
                 averageTradeSize = 1, solBalance = 0, usdProfit = 0\<rparr>)] 150)) = 2"
  using displayResults_frame [of
     "[(''w1'', \<lparr>profit = 10, trades = 4, totalVolume = 8, successfulTrades = 3,
                 averageTradeSize = 2, solBalance = 0, usdProfit = 0\<rparr>),
         (''w2'', \<lparr>profit = 10, trades = 4, totalVolume = 8, successfulTrades = 2,
                 averageTradeSize = 2, solBalance = 0, usdProfit = 0\<rparr>),
         (''w3'', \<lparr>profit = 20, trades = 5, totalVolume = 5, successfulTrades = 4,
                 averageTradeSize = 1, solBalance = 0, usdProfit = 0\<rparr>)]"
     "\<lparr>getSignaturesForAddress = \<lambda>n before k. Inr [],
         getTransaction = \<lambda>sig k. Inr None,
         getBalance = \<lambda>address. Inr 3000000000\<rparr>" 150]
  by (simp add: displayResults_example)

section \<open>The pagination loop\<close>

lemma totalFetched_foldl_process_signature:
  "totalFetched (foldl (process_signature prov) st sigs) = totalFetched st"
  by (induction sigs arbitrary: st)
     (simp_all add: process_signature_def Let_def split: sum.splits)

lemma totalFetched_window_step:
  "totalFetched (window_step prov now ms solPrice st signatures) =
     totalFetched st + length signatures"
  by (simp add: window_step_def process_accumulated_def Let_def
      totalFetched_foldl_process_signature)

lemma withRetry_value_from_operation:
  "fst (withRetry operation k) = Inr v \<Longrightarrow> \<exists>j. operation j = Inr v"
proof (induction operation k rule: withRetry.induct)
  case (1 operation retryCount)
  show ?case
  proof (cases "operation retryCount")
    case (Inr v')
    with "1.prems" have "v' = v" by (subst (asm) withRetry.simps) simp
    with Inr show ?thesis by blast
  next
    case (Inl err)
    show ?thesis
    proof (cases "rate_limited err \<and> retryCount < MAX_RETRIES")
      case True
      with Inl "1.prems" have "fst (withRetry operation (retryCount + 1)) = Inr v"
        by (subst (asm) withRetry.simps) (simp add: split_beta)
      with "1.IH" [OF Inl True refl] show ?thesis by blast
    next
      case False
      with Inl "1.prems" show ?thesis by (subst (asm) withRetry.simps) auto
    qed
  qed
qed

lemma foldl_process_signature_fields:
  "allSignatures (foldl (process_signature prov) st sigs) = allSignatures st"
  "lastSignature (foldl (process_signature prov) st sigs) = lastSignature st"
  "keepFetching (foldl (process_signature prov) st sigs) = keepFetching st"
  "pageRequests (foldl (process_signature prov) st sigs) = pageRequests st"
  by (induction sigs arbitrary: st; simp add: process_signature_def Let_def split: sum.splits)+

lemma process_accumulated_fields:
  "allSignatures (process_accumulated prov p st) = allSignatures st"
  "lastSignature (process_accumulated prov p st) = lastSignature st"
  "keepFetching (process_accumulated prov p st) = keepFetching st"
  "totalFetched (process_accumulated prov p st) = totalFetched st"
  "pageRequests (process_accumulated prov p st) = pageRequests st"
  by (simp_all add: process_accumulated_def Let_def foldl_process_signature_fields
      totalFetched_foldl_process_signature)

lemma window_step_fields:
  "allSignatures (window_step prov now ms p st sigs) =
     allSignatures st @
       (if sig_time (last sigs) < now - ms then filter (\<lambda>sig. sig_time sig \<ge> now - ms) sigs
        else sigs)"
  "keepFetching (window_step prov now ms p st sigs) =
     ((if sig_time (last sigs) < now - ms then False else keepFetching st) \<and>
      totalFetched st + length sigs < MAX_TRANSACTIONS_PER_INTERVAL)"
  "pageRequests (window_step prov now ms p st sigs) = pageRequests st"
  "lastSignature (window_step prov now ms p st sigs) =
     (if sig_time (last sigs) < now - ms then lastSignature st
      else Some (signature (last sigs)))"
  by (auto simp: window_step_def Let_def process_accumulated_fields)

text \<open>
  A rule for the loop: an invariant \<open>I\<close> of the iterations that go on, and what it gives
  at the two ways out, the loop condition failing and the \<open>break\<close> on an empty page.
\<close>

lemma window_loop_rule:
  assumes result: "window_loop prov now ms p st = Inr st'"
    and init: "I st"
    and step: "\<And>s sigs k. I s \<Longrightarrow> keepFetching s \<Longrightarrow>
        totalFetched s < MAX_TRANSACTIONS_PER_INTERVAL \<Longrightarrow> sigs \<noteq> [] \<Longrightarrow>
        getSignaturesForAddress prov (pageRequests s)
          (if truthy (lastSignature s) then lastSignature s else None) k = Inr sigs \<Longrightarrow>
        I (window_step prov now ms p (s\<lparr>pageRequests := pageRequests s + 1\<rparr>) sigs)"
    and stop: "\<And>s. I s \<Longrightarrow>
        \<not> (keepFetching s \<and> totalFetched s < MAX_TRANSACTIONS_PER_INTERVAL) \<Longrightarrow> Q s"
    and break: "\<And>s. I s \<Longrightarrow> keepFetching s \<Longrightarrow>
        totalFetched s < MAX_TRANSACTIONS_PER_INTERVAL \<Longrightarrow>
        Q (s\<lparr>pageRequests := pageRequests s + 1\<rparr>)"
  shows "Q st'"
  using assms
proof (induction prov now ms p st rule: window_loop.induct)
  case (1 prov now ms p st)
  note step = "1.prems"(3) and stop = "1.prems"(4) and break = "1.prems"(5)
  show ?case
  proof (cases "keepFetching st \<and> totalFetched st < MAX_TRANSACTIONS_PER_INTERVAL")
    case False
    with "1.prems"(1) have "st' = st" by (subst (asm) window_loop.simps) auto
    with False "1.prems"(2) stop show ?thesis by blast
  next
    case True
    let ?before = "if truthy (lastSignature st) then lastSignature st else None"
    let ?st1 = "st\<lparr>pageRequests := pageRequests st + 1\<rparr>"
    show ?thesis
    proof (cases "fst (withRetry (getSignaturesForAddress prov (pageRequests st) ?before) 0)")
      case (Inl err)
      with True "1.prems"(1) show ?thesis
        by (subst (asm) window_loop.simps) (simp add: Let_def)
    next
      case (Inr sigs)
      show ?thesis
      proof (cases "sigs = []")
        case empty: True
        with True Inr "1.prems"(1) have "st' = ?st1"
          by (subst (asm) window_loop.simps) (simp add: Let_def)
        with True "1.prems"(2) break show ?thesis by blast
      next
        case nonempty: False
        with True Inr "1.prems"(1)
        have next_run: "window_loop prov now ms p (window_step prov now ms p ?st1 sigs) = Inr st'"
          by (subst (asm) window_loop.simps) (simp add: Let_def)
        from withRetry_value_from_operation [OF Inr] obtain k where
          "getSignaturesForAddress prov (pageRequests st) ?before k = Inr sigs" ..
        with True nonempty "1.prems"(2)
        have "I (window_step prov now ms p ?st1 sigs)" by (intro step) simp_all
        with "1.IH" [OF True refl refl Inr _ next_run _ step stop break] nonempty
        show ?thesis by simp
      qed
    qed
  qed
qed

lemma window_loop_bounds:
  assumes "window_loop prov now ms p initial_state = Inr st"
  shows "pageRequests st \<le> MAX_TRANSACTIONS_PER_INTERVAL \<and>
         length (allSignatures st) \<le> totalFetched st"
proof (rule window_loop_rule [OF assms, where
      I = "\<lambda>s. pageRequests s \<le> MAX_TRANSACTIONS_PER_INTERVAL \<and>
                pageRequests s \<le> totalFetched s \<and>
                length (allSignatures s) \<le> totalFetched s"])
  show "pageRequests initial_state \<le> MAX_TRANSACTIONS_PER_INTERVAL \<and>
        pageRequests initial_state \<le> totalFetched initial_state \<and>
        length (allSignatures initial_state) \<le> totalFetched initial_state"
    by (simp add: initial_state_def)
next
  fix s :: window_state and sigs :: "sig_info list" and k :: nat
  assume "pageRequests s \<le> MAX_TRANSACTIONS_PER_INTERVAL \<and>
          pageRequests s \<le> totalFetched s \<and> length (allSignatures s) \<le> totalFetched s"
    and "totalFetched s < MAX_TRANSACTIONS_PER_INTERVAL" and "sigs \<noteq> []"
  moreover obtain n where n: "length sigs = Suc n"
    using \<open>sigs \<noteq> []\<close> by (cases sigs) simp_all
  moreover have "length (filter (\<lambda>sig. now - ms \<le> sig_time sig) sigs) \<le> Suc n"
    using length_filter_le [of _ sigs] n by simp
  ultimately show
    "pageRequests (window_step prov now ms p (s\<lparr>pageRequests := pageRequests s + 1\<rparr>) sigs)
       \<le> MAX_TRANSACTIONS_PER_INTERVAL \<and>
     pageRequests (window_step prov now ms p (s\<lparr>pageRequests := pageRequests s + 1\<rparr>) sigs)
       \<le> totalFetched (window_step prov now ms p (s\<lparr>pageRequests := pageRequests s + 1\<rparr>) sigs) \<and>
     length (allSignatures
        (window_step prov now ms p (s\<lparr>pageRequests := pageRequests s + 1\<rparr>) sigs))
       \<le> totalFetched (window_step prov now ms p (s\<lparr>pageRequests := pageRequests s + 1\<rparr>) sigs)"
    by (simp add: window_step_fields totalFetched_window_step)
next
  fix s :: window_state
  assume "pageRequests s \<le> MAX_TRANSACTIONS_PER_INTERVAL \<and>
          pageRequests s \<le> totalFetched s \<and> length (allSignatures s) \<le> totalFetched s"
  then show "pageRequests s \<le> MAX_TRANSACTIONS_PER_INTERVAL \<and>
         length (allSignatures s) \<le> totalFetched s"
    by simp
next
  fix s :: window_state
  assume "pageRequests s \<le> MAX_TRANSACTIONS_PER_INTERVAL \<and>
          pageRequests s \<le> totalFetched s \<and> length (allSignatures s) \<le> totalFetched s"
    and "totalFetched s < MAX_TRANSACTIONS_PER_INTERVAL"
  then show "pageRequests (s\<lparr>pageRequests := pageRequests s + 1\<rparr>)
           \<le> MAX_TRANSACTIONS_PER_INTERVAL \<and>
         length (allSignatures (s\<lparr>pageRequests := pageRequests s + 1\<rparr>))
           \<le> totalFetched (s\<lparr>pageRequests := pageRequests s + 1\<rparr>)"
    by simp
qed

lemma window_loop_page_limit:
  assumes run: "window_loop prov now ms p initial_state = Inr st"
    and pages: "\<forall>n before k page.
        getSignaturesForAddress prov n before k = Inr page \<longrightarrow> length page \<le> BATCH_SIZE"
  shows "totalFetched st < MAX_TRANSACTIONS_PER_INTERVAL + BATCH_SIZE"
proof (rule window_loop_rule [OF run, where
      I = "\<lambda>s. totalFetched s < MAX_TRANSACTIONS_PER_INTERVAL + BATCH_SIZE"])
  show "totalFetched initial_state < MAX_TRANSACTIONS_PER_INTERVAL + BATCH_SIZE"
    by (simp add: initial_state_def MAX_TRANSACTIONS_PER_INTERVAL_def)
next
  fix s :: window_state and sigs :: "sig_info list" and k :: nat
  assume "totalFetched s < MAX_TRANSACTIONS_PER_INTERVAL"
    and "getSignaturesForAddress prov (pageRequests s)
          (if truthy (lastSignature s) then lastSignature s else None) k = Inr sigs"
  with pages have "totalFetched s < MAX_TRANSACTIONS_PER_INTERVAL" "length sigs \<le> BATCH_SIZE"
    by blast+
  then show "totalFetched (window_step prov now ms p (s\<lparr>pageRequests := pageRequests s + 1\<rparr>) sigs)
      < MAX_TRANSACTIONS_PER_INTERVAL + BATCH_SIZE"
    by (simp add: totalFetched_window_step)
qed simp_all

lemma window_loop_full_pages:
  assumes run: "window_loop prov now ms p initial_state = Inr st"
    and pages: "\<forall>n before k page.
        getSignaturesForAddress prov n before k = Inr page \<longrightarrow>
        page = [] \<or> length page = BATCH_SIZE"
  shows "totalFetched st \<le> MAX_TRANSACTIONS_PER_INTERVAL"
proof (rule window_loop_rule [OF run, where
      I = "\<lambda>s. BATCH_SIZE dvd totalFetched s \<and> totalFetched s \<le> MAX_TRANSACTIONS_PER_INTERVAL"])
  show "BATCH_SIZE dvd totalFetched initial_state \<and>
        totalFetched initial_state \<le> MAX_TRANSACTIONS_PER_INTERVAL"
    by (simp add: initial_state_def)
next
  fix s :: window_state and sigs :: "sig_info list" and k :: nat
  assume inv: "BATCH_SIZE dvd totalFetched s \<and> totalFetched s \<le> MAX_TRANSACTIONS_PER_INTERVAL"
    and lt: "totalFetched s < MAX_TRANSACTIONS_PER_INTERVAL" and ne: "sigs \<noteq> []"
    and "getSignaturesForAddress prov (pageRequests s)
          (if truthy (lastSignature s) then lastSignature s else None) k = Inr sigs"
  with pages have len: "length sigs = BATCH_SIZE" by blast
  from inv obtain j where j: "totalFetched s = 50 * j" by (auto simp: BATCH_SIZE_def dvd_def)
  with lt have "j < 16" by (simp add: MAX_TRANSACTIONS_PER_INTERVAL_def)
  then have "50 * j + 50 \<le> (800::nat)" by simp
  with j len inv show
    "BATCH_SIZE dvd totalFetched (window_step prov now ms p
        (s\<lparr>pageRequests := pageRequests s + 1\<rparr>) sigs) \<and>
     totalFetched (window_step prov now ms p (s\<lparr>pageRequests := pageRequests s + 1\<rparr>) sigs)
       \<le> MAX_TRANSACTIONS_PER_INTERVAL"
    by (simp add: totalFetched_window_step BATCH_SIZE_def MAX_TRANSACTIONS_PER_INTERVAL_def)
qed simp_all

text \<open>
  C8, as the code has it. The loop of a window always ends: \<open>window_loop\<close> is a total
  function, which returns an error that \<open>withRetry\<close> let through or the state the loop
  ends in. In that state at most 800 pages were requested, and the accumulated signatures
  are no more than \<open>totalFetched\<close>. The cap is tested after a whole page was appended: when
  no page is longer than the requested 50, \<open>totalFetched\<close> stays below 800 + 50, and when
  every page that is not empty has exactly 50 signatures it is at most 800.
\<close>

theorem pagination_bounded:
  "(case window_loop prov now ms p initial_state of
      Inl err \<Rightarrow> True
    | Inr st \<Rightarrow>
        pageRequests st \<le> MAX_TRANSACTIONS_PER_INTERVAL \<and>
        length (allSignatures st) \<le> totalFetched st \<and>
        ((\<forall>n before k page. getSignaturesForAddress prov n before k = Inr page \<longrightarrow>
            length page \<le> BATCH_SIZE) \<longrightarrow>
         totalFetched st < MAX_TRANSACTIONS_PER_INTERVAL + BATCH_SIZE) \<and>
        ((\<forall>n before k page. getSignaturesForAddress prov n before k = Inr page \<longrightarrow>
            page = [] \<or> length page = BATCH_SIZE) \<longrightarrow>
         totalFetched st \<le> MAX_TRANSACTIONS_PER_INTERVAL))"
proof (cases "window_loop prov now ms p initial_state")
  case (Inl err)
  then show ?thesis by simp
next
  case (Inr st)
  from window_loop_bounds [OF Inr] window_loop_page_limit [OF Inr]
    window_loop_full_pages [OF Inr]
  show ?thesis unfolding Inr by simp
qed

section \<open>Runs of the pagination loop\<close>

lemma sig_name_eq [simp]: "sig_name m = sig_name n \<longleftrightarrow> m = n"
proof
  assume "sig_name m = sig_name n"
  then have "length (sig_name m) = length (sig_name n)" by simp
  then show "m = n" by (simp add: sig_name_def)
qed simp

lemma truthy_sig_name [simp]: "truthy (Some (sig_name n))"
  by (simp add: truthy_def sig_name_def)

lemma length_recent_page [simp]: "length (recent_page len n) = len"
  by (simp add: recent_page_def)

lemma recent_page_Nil [simp]: "recent_page len n = [] \<longleftrightarrow> len = 0"
  by (simp add: recent_page_def)

lemma last_recent_page:
  "0 < len \<Longrightarrow>
   last (recent_page len n) =
     \<lparr>signature = sig_name (len * n + (len - 1)), blockTime = Some 1699999000\<rparr>"
  by (simp add: recent_page_def last_map)

lemma sig_time_recent [simp]:
  "sig_time \<lparr>signature = name, blockTime = Some 1699999000\<rparr> = 1699999000000"
  by (simp add: sig_time_def)

lemma signatures_recent_page:
  "map signature (recent_page len n) = map sig_name [len * n..<len * n + len]"
proof -
  have "[len * n..<len * n + len] = map (\<lambda>i. i + len * n) [0..<len]"
    by (simp add: map_add_upt add.commute)
  then show ?thesis by (simp add: recent_page_def comp_def add.commute)
qed

lemma foldl_process_signature:
  "foldl (process_signature prov) st sigs =
     st\<lparr>fetchedTransactions := fetchedTransactions st @ map signature sigs,
        profitTraders :=
          foldl (\<lambda>l sig. case fst (withRetry (getTransaction prov (signature sig)) 0) of
                           Inl txError \<Rightarrow> l
                         | Inr transaction \<Rightarrow> process_transaction l transaction)
            (profitTraders st) sigs\<rparr>"
proof (induction sigs arbitrary: st)
  case Nil
  then show ?case by simp
next
  case (Cons sig sigs)
  have "foldl (process_signature prov) st (sig # sigs) =
      foldl (process_signature prov) (process_signature prov st sig) sigs"
    by simp
  also note Cons.IH [of "process_signature prov st sig"]
  also have "(process_signature prov st sig)
      \<lparr>fetchedTransactions :=
         fetchedTransactions (process_signature prov st sig) @ map signature sigs,
       profitTraders :=
          foldl (\<lambda>l sig. case fst (withRetry (getTransaction prov (signature sig)) 0) of
                           Inl txError \<Rightarrow> l
                         | Inr transaction \<Rightarrow> process_transaction l transaction)
            (profitTraders (process_signature prov st sig)) sigs\<rparr> =
     st\<lparr>fetchedTransactions := fetchedTransactions st @ map signature (sig # sigs),
        profitTraders :=
          foldl (\<lambda>l sig. case fst (withRetry (getTransaction prov (signature sig)) 0) of
                           Inl txError \<Rightarrow> l
                         | Inr transaction \<Rightarrow> process_transaction l transaction)
            (profitTraders st) (sig # sigs)\<rparr>"
    by (cases "fst (withRetry (getTransaction prov (signature sig)) 0)")
       (simp_all add: process_signature_def Let_def)
  finally show ?case .
qed

lemma displayResults_Nil [simp]: "displayResults prov [] p = ([], [])"
  by (simp add: displayResults_def eligibleTraders_def)

lemma ledger_fold_null:
  "getTransaction prov = (\<lambda>sig k. Inr None) \<Longrightarrow>
   foldl (\<lambda>l sig. case fst (withRetry (getTransaction prov (signature sig)) 0) of
                           Inl txError \<Rightarrow> l
                         | Inr transaction \<Rightarrow> process_transaction l transaction) [] sigs = []"
  by (induction sigs) (simp_all add: withRetry.simps process_transaction_def)

lemma process_accumulated_null:
  assumes "getTransaction prov = (\<lambda>sig k. Inr None)" "profitTraders st = []"
  shows "process_accumulated prov p st =
     st\<lparr>fetchedTransactions := fetchedTransactions st @ map signature (allSignatures st),
        profitTraders := []\<rparr>"
  unfolding process_accumulated_def Let_def foldl_process_signature assms(2)
    ledger_fold_null [OF assms(1)]
  by simp

text \<open>
  C8 as stated bounds the accumulated signatures by 800. With pages of 49 signatures,
  16 pages give 784, still under the cap, and the 17th is appended whole: 833.
\<close>

theorem short_pages_counterexample:
  "map_sum id (\<lambda>st. (length (allSignatures st), totalFetched st, pageRequests st))
     (window_loop short_page_provider 1700000000000 86400000 150 initial_state) =
   Inr (833, 833, 17)"
  by (simp add: window_loop.simps withRetry.simps window_step_def Let_def
      short_page_provider_def initial_state_def MAX_TRANSACTIONS_PER_INTERVAL_def
      last_recent_page process_accumulated_null)

theorem pagination_bounded_witness:
  "map_sum id (\<lambda>st. (length (allSignatures st), totalFetched st, pageRequests st,
                      length (fetchedTransactions st)))
     (window_loop full_page_provider 1700000000000 86400000 150 initial_state) =
   Inr (800, 800, 16, 2000)"
proof -
  have run: "map_sum id (\<lambda>st. (length (allSignatures st), totalFetched st, pageRequests st,
                      length (fetchedTransactions st)))
     (window_loop full_page_provider 1700000000000 86400000 150 initial_state) =
   Inr (800, 800, 16, 2000)"
    by (simp add: window_loop.simps withRetry.simps window_step_def Let_def
        full_page_provider_def initial_state_def MAX_TRANSACTIONS_PER_INTERVAL_def
        last_recent_page process_accumulated_null)
  from pagination_bounded [of full_page_provider 1700000000000 86400000 150] run
  show ?thesis by simp
qed

section \<open>The time window\<close>

lemma window_loop_stopped:
  "\<not> keepFetching st \<Longrightarrow> window_loop prov now ms p st = Inr st"
  by (subst window_loop.simps) simp

lemma sorted_page_last:
  assumes "sorted_wrt (\<lambda>x y. sig_time y \<le> sig_time x) page" "s \<in> set page"
  shows "sig_time (last page) \<le> sig_time s"
proof -
  from assms(2) have ne: "page \<noteq> []" by auto
  then have split: "page = butlast page @ [last page]" by simp
  with assms(1) have "sorted_wrt (\<lambda>x y. sig_time y \<le> sig_time x) (butlast page @ [last page])"
    by simp
  then have before: "\<forall>x \<in> set (butlast page). sig_time (last page) \<le> sig_time x"
    by (simp add: sorted_wrt_append)
  from assms(2) split have "s \<in> set (butlast page) \<or> s = last page"
    by (metis Un_iff empty_iff insert_iff list.set(1) list.set(2) set_append)
  with before show ?thesis by auto
qed

lemma window_loop_in_window:
  assumes run: "window_loop prov now ms p initial_state = Inr st"
    and pages: "\<forall>n before k page. getSignaturesForAddress prov n before k = Inr page \<longrightarrow>
        sorted_wrt (\<lambda>x y. sig_time y \<le> sig_time x) page"
  shows "\<forall>s \<in> set (allSignatures st). now - ms \<le> sig_time s"
proof (rule window_loop_rule [OF run, where
      I = "\<lambda>st. \<forall>s \<in> set (allSignatures st). now - ms \<le> sig_time s"])
  show "\<forall>s \<in> set (allSignatures initial_state). now - ms \<le> sig_time s"
    by (simp add: initial_state_def)
next
  fix st :: window_state and sigs :: "sig_info list" and k :: nat
  assume inv: "\<forall>s \<in> set (allSignatures st). now - ms \<le> sig_time s"
    and "getSignaturesForAddress prov (pageRequests st)
          (if truthy (lastSignature st) then lastSignature st else None) k = Inr sigs"
  with pages have sorted: "sorted_wrt (\<lambda>x y. sig_time y \<le> sig_time x) sigs" by blast
  show "\<forall>s \<in> set (allSignatures
      (window_step prov now ms p (st\<lparr>pageRequests := pageRequests st + 1\<rparr>) sigs)).
      now - ms \<le> sig_time s"
  proof (cases "sig_time (last sigs) < now - ms")
    case True
    with inv show ?thesis by (auto simp: window_step_fields)
  next
    case False
    have "now - ms \<le> sig_time s" if "s \<in> set sigs" for s
      using sorted_page_last [OF sorted that] False by simp
    with inv False show ?thesis by (auto simp: window_step_fields)
  qed
qed simp_all

text \<open>
  C2, as the code has it. A signature without a block time counts as time 0. When the
  last signature of a page is older than \<open>now - ms\<close>, as it is when it has no block time
  and \<open>ms < now\<close>, only the signatures of the page that are inside the window are appended
  and the loop ends there. A page whose last signature is inside the window is appended
  as it is, its last signature becomes the cursor, and the loop goes on unless the cap is
  reached: provided every page is in descending order of time, the accumulated list holds
  no signature older than \<open>now - ms\<close>.
\<close>

theorem pagination_window:
  "(blockTime sig = None \<longrightarrow> sig_time sig = 0) \<and>
   (sig_time (last sigs) < now - ms \<longrightarrow>
      \<not> keepFetching (window_step prov now ms p st sigs) \<and>
      allSignatures (window_step prov now ms p st sigs) =
        allSignatures st @ filter (\<lambda>s. now - ms \<le> sig_time s) sigs \<and>
      window_loop prov now ms p (window_step prov now ms p st sigs) =
        Inr (window_step prov now ms p st sigs)) \<and>
   (blockTime (last sigs) = None \<and> ms < now \<longrightarrow> sig_time (last sigs) < now - ms) \<and>
   (\<not> sig_time (last sigs) < now - ms \<longrightarrow>
      allSignatures (window_step prov now ms p st sigs) = allSignatures st @ sigs \<and>
      lastSignature (window_step prov now ms p st sigs) = Some (signature (last sigs)) \<and>
      keepFetching (window_step prov now ms p st sigs) =
        (keepFetching st \<and> totalFetched st + length sigs < MAX_TRANSACTIONS_PER_INTERVAL)) \<and>
   ((\<forall>n before k page. getSignaturesForAddress prov n before k = Inr page \<longrightarrow>
        sorted_wrt (\<lambda>x y. sig_time y \<le> sig_time x) page) \<longrightarrow>
    (case window_loop prov now ms p initial_state of
       Inl err \<Rightarrow> True
     | Inr st' \<Rightarrow> \<forall>s \<in> set (allSignatures st'). now - ms \<le> sig_time s))"
proof (intro conjI impI)
  assume "blockTime sig = None"
  then show "sig_time sig = 0" by (simp add: sig_time_def)
next
  assume old: "sig_time (last sigs) < now - ms"
  then show stop: "\<not> keepFetching (window_step prov now ms p st sigs)"
    by (simp add: window_step_fields)
  from old show "allSignatures (window_step prov now ms p st sigs) =
        allSignatures st @ filter (\<lambda>s. now - ms \<le> sig_time s) sigs"
    by (simp add: window_step_fields)
  from stop show "window_loop prov now ms p (window_step prov now ms p st sigs) =
        Inr (window_step prov now ms p st sigs)"
    by (rule window_loop_stopped)
next
  assume "blockTime (last sigs) = None \<and> ms < now"
  then show "sig_time (last sigs) < now - ms" by (simp add: sig_time_def)
next
  assume inside: "\<not> sig_time (last sigs) < now - ms"
  then show "allSignatures (window_step prov now ms p st sigs) = allSignatures st @ sigs"
    by (simp add: window_step_fields)
  from inside show "lastSignature (window_step prov now ms p st sigs) =
      Some (signature (last sigs))"
    by (simp add: window_step_fields)
  from inside show "keepFetching (window_step prov now ms p st sigs) =
      (keepFetching st \<and> totalFetched st + length sigs < MAX_TRANSACTIONS_PER_INTERVAL)"
    by (simp add: window_step_fields)
next
  assume pages: "\<forall>n before k page. getSignaturesForAddress prov n before k = Inr page \<longrightarrow>
        sorted_wrt (\<lambda>x y. sig_time y \<le> sig_time x) page"
  show "case window_loop prov now ms p initial_state of
       Inl err \<Rightarrow> True
     | Inr st' \<Rightarrow> \<forall>s \<in> set (allSignatures st'). now - ms \<le> sig_time s"
  proof (cases "window_loop prov now ms p initial_state")
    case (Inl err)
    then show ?thesis by simp
  next
    case (Inr st')
    from window_loop_in_window [OF Inr pages] show ?thesis unfolding Inr by simp
  qed
qed

theorem pagination_window_witness:
  "window_loop boundary_provider 1700000000000 86400000 150 initial_state =
     Inr \<lparr>allSignatures = [\<lparr>signature = sig_name 0, blockTime = Some 1699999000\<rparr>],
          lastSignature = None, keepFetching = False, totalFetched = 2, profitTraders = [],
          pageRequests = 1, fetchedTransactions = [sig_name 0]\<rparr> \<and>
   allSignatures (window_step full_page_provider 1700000000000 86400000 150 initial_state
      (recent_page 50 0)) = recent_page 50 0 \<and>
   lastSignature (window_step full_page_provider 1700000000000 86400000 150 initial_state
      (recent_page 50 0)) = Some (sig_name 49) \<and>
   keepFetching (window_step full_page_provider 1700000000000 86400000 150 initial_state
      (recent_page 50 0))"
proof -
  have run: "window_loop boundary_provider 1700000000000 86400000 150 initial_state =
     Inr \<lparr>allSignatures = [\<lparr>signature = sig_name 0, blockTime = Some 1699999000\<rparr>],
          lastSignature = None, keepFetching = False, totalFetched = 2, profitTraders = [],
          pageRequests = 1, fetchedTransactions = [sig_name 0]\<rparr>"
    by (simp add: window_loop.simps withRetry.simps window_step_def Let_def
        boundary_provider_def initial_state_def MAX_TRANSACTIONS_PER_INTERVAL_def
        process_accumulated_null sig_time_def)
  have inside: "\<not> sig_time (last (recent_page 50 0)) < 1700000000000 - 86400000"
    by (simp add: last_recent_page)
  from pagination_window [of "\<lparr>signature = sig_name 1, blockTime = None\<rparr>"
      "[\<lparr>signature = sig_name 0, blockTime = Some 1699999000\<rparr>,
        \<lparr>signature = sig_name 1, blockTime = None\<rparr>]"
      1700000000000 86400000 boundary_provider 150 initial_state] run
    pagination_window [of "\<lparr>signature = sig_name 1, blockTime = None\<rparr>"
      "recent_page 50 0" 1700000000000 86400000 full_page_provider 150 initial_state] inside
  show ?thesis
    by (simp add: last_recent_page initial_state_def MAX_TRANSACTIONS_PER_INTERVAL_def)
qed

text \<open>
  C2 as stated has every signature without a block time end the pagination and stay out
  of the accumulated list. Only the last signature of a page is looked at: in front of a
  recent one, such a signature is accumulated and the next page is requested.
\<close>

theorem null_block_time_counterexample:
  "window_loop null_time_provider 1700000000000 86400000 150 initial_state =
     Inr \<lparr>allSignatures = [\<lparr>signature = sig_name 0, blockTime = None\<rparr>,
                           \<lparr>signature = sig_name 1, blockTime = Some 1699999000\<rparr>],
          lastSignature = Some (sig_name 1), keepFetching = True, totalFetched = 2,
          profitTraders = [], pageRequests = 2, fetchedTransactions = []\<rparr> \<and>
   sig_time \<lparr>signature = sig_name 0, blockTime = None\<rparr> < 1700000000000 - 86400000"
  by (simp add: window_loop.simps withRetry.simps window_step_def Let_def
      null_time_provider_def initial_state_def MAX_TRANSACTIONS_PER_INTERVAL_def sig_time_def)

section \<open>Intermediate results\<close>

lemma process_gain_tx_first:
  "process_transaction [] (Some gain_tx) =
     [(''A'', \<lparr>profit = 5, trades = 1, totalVolume = 23 / 10, successfulTrades = 1,
              averageTradeSize = 23 / 10, solBalance = 0, usdProfit = 0\<rparr>)]"
  by (simp add: gain_tx_def process_transaction_def isTradeTransaction_def isTrade_loop.simps
      calculateTradeValue_def tradeValue_loop.simps apply_loop.simps apply_pair_def
      pair_present_def truthy_def entry_at_def record_trade_def new_trader_def
      LAMPORTS_PER_SOL_def Let_def)

lemma process_gain_tx_second:
  "process_transaction
     [(''A'', \<lparr>profit = 5, trades = 1, totalVolume = 23 / 10, successfulTrades = 1,
              averageTradeSize = 23 / 10, solBalance = 0, usdProfit = 0\<rparr>)] (Some gain_tx) =
     [(''A'', \<lparr>profit = 10, trades = 2, totalVolume = 46 / 10, successfulTrades = 2,
              averageTradeSize = 23 / 10, solBalance = 0, usdProfit = 0\<rparr>)]"
  by (simp add: gain_tx_def process_transaction_def isTradeTransaction_def isTrade_loop.simps
      calculateTradeValue_def tradeValue_loop.simps apply_loop.simps apply_pair_def
      pair_present_def truthy_def entry_at_def record_trade_def new_trader_def
      LAMPORTS_PER_SOL_def Let_def)

lemma displayResults_few_trades:
  "trades d < 3 \<Longrightarrow> displayResults prov [(a, d)] p = ([(a, d)], [])"
  by (simp add: displayResults_def eligibleTraders_def eligible_def MIN_TRADES_def)

lemma ledger_fold_others:
  "\<forall>s \<in> set sigs. signature s \<noteq> sig_name 0 \<Longrightarrow>
   foldl (\<lambda>l sig. case fst (withRetry (getTransaction repeat_provider (signature sig)) 0) of
                     Inl txError \<Rightarrow> l
                   | Inr transaction \<Rightarrow> process_transaction l transaction) l sigs = l"
  by (induction sigs arbitrary: l)
     (simp_all add: repeat_provider_def withRetry.simps process_transaction_def)

lemma recent_page_later:
  "0 < n \<Longrightarrow> \<forall>s \<in> set (recent_page 50 n). signature s \<noteq> sig_name 0"
  by (auto simp: recent_page_def)

lemma recent_page_first:
  "recent_page 50 0 =
     \<lparr>signature = sig_name 0, blockTime = Some 1699999000\<rparr> #
     map (\<lambda>i. \<lparr>signature = sig_name i, blockTime = Some 1699999000\<rparr>) [1..<50]"
  by (simp add: recent_page_def upt_conv_Cons [of 0 50])

lemma ledger_fold_200:
  "foldl (\<lambda>l sig. case fst (withRetry (getTransaction repeat_provider (signature sig)) 0) of
                     Inl txError \<Rightarrow> l
                   | Inr transaction \<Rightarrow> process_transaction l transaction) l
     (recent_page 50 0 @ recent_page 50 1 @ recent_page 50 2 @ recent_page 50 3) =
   process_transaction l (Some gain_tx)"
proof -
  have rest: "\<forall>s \<in> set (map (\<lambda>i. \<lparr>signature = sig_name i, blockTime = Some 1699999000\<rparr>) [1..<50] @
      recent_page 50 1 @ recent_page 50 2 @ recent_page 50 3). signature s \<noteq> sig_name 0"
    using recent_page_later [of 1] recent_page_later [of 2] recent_page_later [of 3]
    by auto
  have first: "fst (withRetry (getTransaction repeat_provider (sig_name 0)) 0) = Inr (Some gain_tx)"
    by (simp add: repeat_provider_def withRetry.simps)
  show ?thesis
    unfolding recent_page_first append_Cons foldl_Cons
    by (simp only: ledger_fold_others [OF rest] first sig_info.simps sum.case)
qed

lemma signatures_200:
  "map signature (recent_page 50 0 @ recent_page 50 1 @ recent_page 50 2 @ recent_page 50 3) =
   map sig_name [0..<200]"
proof -
  have "[0..<200] = [0..<50] @ [50..<100] @ [100..<150] @ [150..<200]"
    using upt_add_eq_append [of 0 50 150] upt_add_eq_append [of 50 100 100]
      upt_add_eq_append [of 100 150 50]
    by simp
  then show ?thesis by (simp add: signatures_recent_page)
qed

lemma process_accumulated_200:
  assumes "allSignatures st =
      recent_page 50 0 @ recent_page 50 1 @ recent_page 50 2 @ recent_page 50 3"
  shows "process_accumulated repeat_provider p st =
     st\<lparr>fetchedTransactions := fetchedTransactions st @ map sig_name [0..<200],
        profitTraders :=
          fst (displayResults repeat_provider
                 (process_transaction (profitTraders st) (Some gain_tx)) p)\<rparr>"
  unfolding process_accumulated_def Let_def foldl_process_signature assms ledger_fold_200
    signatures_200
  by simp

lemma window_loop_step:
  assumes "keepFetching st" "totalFetched st < MAX_TRANSACTIONS_PER_INTERVAL"
    and "getSignaturesForAddress prov (pageRequests st)
           (if truthy (lastSignature st) then lastSignature st else None) 0 = Inr sigs"
    and "sigs \<noteq> []"
  shows "window_loop prov now ms p st =
     window_loop prov now ms p
       (window_step prov now ms p (st\<lparr>pageRequests := pageRequests st + 1\<rparr>) sigs)"
  using assms by (subst window_loop.simps) (simp add: Let_def withRetry_success)

lemma repeat_step_1:
  "window_step repeat_provider 1700000000000 86400000 150
     \<lparr>allSignatures = [], lastSignature = None, keepFetching = True, totalFetched = 0,
      profitTraders = [], pageRequests = r, fetchedTransactions = []\<rparr> (recent_page 50 0) =
   \<lparr>allSignatures = recent_page 50 0, lastSignature = Some (sig_name 49), keepFetching = True,
    totalFetched = 50, profitTraders = [], pageRequests = r, fetchedTransactions = []\<rparr>"
  by (simp add: window_step_def Let_def MAX_TRANSACTIONS_PER_INTERVAL_def last_recent_page)

lemma repeat_step_2:
  "window_step repeat_provider 1700000000000 86400000 150
     \<lparr>allSignatures = recent_page 50 0, lastSignature = Some (sig_name 49), keepFetching = True,
      totalFetched = 50, profitTraders = [], pageRequests = r, fetchedTransactions = []\<rparr>
     (recent_page 50 1) =
   \<lparr>allSignatures = recent_page 50 0 @ recent_page 50 1, lastSignature = Some (sig_name 99),
    keepFetching = True, totalFetched = 100, profitTraders = [], pageRequests = r,
    fetchedTransactions = []\<rparr>"
  by (simp add: window_step_def Let_def MAX_TRANSACTIONS_PER_INTERVAL_def last_recent_page)

lemma repeat_step_3:
  "window_step repeat_provider 1700000000000 86400000 150
     \<lparr>allSignatures = recent_page 50 0 @ recent_page 50 1, lastSignature = Some (sig_name 99),
      keepFetching = True, totalFetched = 100, profitTraders = [], pageRequests = r,
      fetchedTransactions = []\<rparr>
     (recent_page 50 2) =
   \<lparr>allSignatures = recent_page 50 0 @ recent_page 50 1 @ recent_page 50 2,
    lastSignature = Some (sig_name 149), keepFetching = True, totalFetched = 150,
    profitTraders = [], pageRequests = r, fetchedTransactions = []\<rparr>"
  by (simp add: window_step_def Let_def MAX_TRANSACTIONS_PER_INTERVAL_def last_recent_page)

lemma repeat_step_4:
  "window_step repeat_provider 1700000000000 86400000 150
     \<lparr>allSignatures = recent_page 50 0 @ recent_page 50 1 @ recent_page 50 2,
      lastSignature = Some (sig_name 149), keepFetching = True, totalFetched = 150,
      profitTraders = [], pageRequests = r, fetchedTransactions = []\<rparr>
     (recent_page 50 3) =
   \<lparr>allSignatures = recent_page 50 0 @ recent_page 50 1 @ recent_page 50 2 @ recent_page 50 3,
    lastSignature = Some (sig_name 199), keepFetching = True, totalFetched = 200,
    profitTraders =
      [(''A'', \<lparr>profit = 5, trades = 1, totalVolume = 23 / 10, successfulTrades = 1,
               averageTradeSize = 23 / 10, solBalance = 0, usdProfit = 0\<rparr>)],
    pageRequests = r, fetchedTransactions = map sig_name [0..<200]\<rparr>"
  by (simp add: window_step_def Let_def MAX_TRANSACTIONS_PER_INTERVAL_def last_recent_page
      process_accumulated_200 process_gain_tx_first displayResults_few_trades)

lemma repeat_step_5:
  "window_step repeat_provider 1700000000000 86400000 150
     \<lparr>allSignatures = recent_page 50 0 @ recent_page 50 1 @ recent_page 50 2 @ recent_page 50 3,
      lastSignature = Some (sig_name 199), keepFetching = True, totalFetched = 200,
      profitTraders =
        [(''A'', \<lparr>profit = 5, trades = 1, totalVolume = 23 / 10, successfulTrades = 1,
                 averageTradeSize = 23 / 10, solBalance = 0, usdProfit = 0\<rparr>)],
      pageRequests = r, fetchedTransactions = map sig_name [0..<200]\<rparr>
     [\<lparr>signature = sig_name 200, blockTime = Some 1600000000\<rparr>] =
   \<lparr>allSignatures = recent_page 50 0 @ recent_page 50 1 @ recent_page 50 2 @ recent_page 50 3,
    lastSignature = Some (sig_name 199), keepFetching = False, totalFetched = 201,
    profitTraders =
      [(''A'', \<lparr>profit = 10, trades = 2, totalVolume = 46 / 10, successfulTrades = 2,
               averageTradeSize = 23 / 10, solBalance = 0, usdProfit = 0\<rparr>)],
    pageRequests = r, fetchedTransactions = map sig_name [0..<200] @ map sig_name [0..<200]\<rparr>"
  by (simp add: window_step_def Let_def MAX_TRANSACTIONS_PER_INTERVAL_def sig_time_def
      process_accumulated_200 process_gain_tx_second displayResults_few_trades)

lemma repeat_pages:
  "getSignaturesForAddress repeat_provider n before k =
     (if n < 4 then Inr (recent_page 50 n)
      else Inr [\<lparr>signature = sig_name 200, blockTime = Some 1600000000\<rparr>])"
  by (simp add: repeat_provider_def)

lemma repeat_loop:
  "window_loop repeat_provider 1700000000000 86400000 150 initial_state =
   Inr \<lparr>allSignatures = recent_page 50 0 @ recent_page 50 1 @ recent_page 50 2 @ recent_page 50 3,
      lastSignature = Some (sig_name 199), keepFetching = False, totalFetched = 201,
      profitTraders =
        [(''A'', \<lparr>profit = 10, trades = 2, totalVolume = 46 / 10, successfulTrades = 2,
                 averageTradeSize = 23 / 10, solBalance = 0, usdProfit = 0\<rparr>)],
      pageRequests = 5,
      fetchedTransactions = map sig_name [0..<200] @ map sig_name [0..<200]\<rparr>"
proof -
  have run_1: "window_loop repeat_provider 1700000000000 86400000 150
     initial_state =
    window_loop repeat_provider 1700000000000 86400000 150
     \<lparr>allSignatures = recent_page 50 0, lastSignature = Some (sig_name 49), keepFetching = True,
      totalFetched = 50, profitTraders = [], pageRequests = 1, fetchedTransactions = []\<rparr>"
  proof -
    have "window_loop repeat_provider 1700000000000 86400000 150
     initial_state =
      window_loop repeat_provider 1700000000000 86400000 150
       (window_step repeat_provider 1700000000000 86400000 150
         (initial_state
            \<lparr>pageRequests := pageRequests
               initial_state + 1\<rparr>)
         (recent_page 50 0))"
      by (rule window_loop_step)
         (simp_all add: initial_state_def repeat_pages MAX_TRANSACTIONS_PER_INTERVAL_def)
    also have "\<dots> =
      window_loop repeat_provider 1700000000000 86400000 150
       \<lparr>allSignatures = recent_page 50 0, lastSignature = Some (sig_name 49), keepFetching = True,
      totalFetched = 50, profitTraders = [], pageRequests = 1, fetchedTransactions = []\<rparr>"
      by (simp add: initial_state_def repeat_step_1 del: One_nat_def)
    finally show ?thesis .
  qed
  have run_2: "window_loop repeat_provider 1700000000000 86400000 150
     \<lparr>allSignatures = recent_page 50 0, lastSignature = Some (sig_name 49), keepFetching = True,
      totalFetched = 50, profitTraders = [], pageRequests = 1, fetchedTransactions = []\<rparr> =
    window_loop repeat_provider 1700000000000 86400000 150
     \<lparr>allSignatures = recent_page 50 0 @ recent_page 50 1, lastSignature = Some (sig_name 99),
      keepFetching = True, totalFetched = 100, profitTraders = [], pageRequests = 2,
      fetchedTransactions = []\<rparr>"
  proof -
    have "window_loop repeat_provider 1700000000000 86400000 150
     \<lparr>allSignatures = recent_page 50 0, lastSignature = Some (sig_name 49), keepFetching = True,
      totalFetched = 50, profitTraders = [], pageRequests = 1, fetchedTransactions = []\<rparr> =
      window_loop repeat_provider 1700000000000 86400000 150
       (window_step repeat_provider 1700000000000 86400000 150
         (\<lparr>allSignatures = recent_page 50 0, lastSignature = Some (sig_name 49), keepFetching = True,
      totalFetched = 50, profitTraders = [], pageRequests = 1, fetchedTransactions = []\<rparr>
            \<lparr>pageRequests := pageRequests
               \<lparr>allSignatures = recent_page 50 0, lastSignature = Some (sig_name 49), keepFetching = True,
      totalFetched = 50, profitTraders = [], pageRequests = 1, fetchedTransactions = []\<rparr> + 1\<rparr>)
         (recent_page 50 1))"
      by (rule window_loop_step)
         (simp_all add: initial_state_def repeat_pages MAX_TRANSACTIONS_PER_INTERVAL_def)
    also have "\<dots> =
      window_loop repeat_provider 1700000000000 86400000 150
       \<lparr>allSignatures = recent_page 50 0 @ recent_page 50 1, lastSignature = Some (sig_name 99),
      keepFetching = True, totalFetched = 100, profitTraders = [], pageRequests = 2,
      fetchedTransactions = []\<rparr>"
      by (simp add: initial_state_def repeat_step_2 del: One_nat_def)
    finally show ?thesis .
  qed
  have run_3: "window_loop repeat_provider 1700000000000 86400000 150
     \<lparr>allSignatures = recent_page 50 0 @ recent_page 50 1, lastSignature = Some (sig_name 99),
      keepFetching = True, totalFetched = 100, profitTraders = [], pageRequests = 2,
      fetchedTransactions = []\<rparr> =
    window_loop repeat_provider 1700000000000 86400000 150
     \<lparr>allSignatures = recent_page 50 0 @ recent_page 50 1 @ recent_page 50 2,
      lastSignature = Some (sig_name 149), keepFetching = True, totalFetched = 150,
      profitTraders = [], pageRequests = 3, fetchedTransactions = []\<rparr>"
  proof -
    have "window_loop repeat_provider 1700000000000 86400000 150
     \<lparr>allSignatures = recent_page 50 0 @ recent_page 50 1, lastSignature = Some (sig_name 99),
      keepFetching = True, totalFetched = 100, profitTraders = [], pageRequests = 2,
      fetchedTransactions = []\<rparr> =
      window_loop repeat_provider 1700000000000 86400000 150
       (window_step repeat_provider 1700000000000 86400000 150
         (\<lparr>allSignatures = recent_page 50 0 @ recent_page 50 1, lastSignature = Some (sig_name 99),
      keepFetching = True, totalFetched = 100, profitTraders = [], pageRequests = 2,
      fetchedTransactions = []\<rparr>
            \<lparr>pageRequests := pageRequests
               \<lparr>allSignatures = recent_page 50 0 @ recent_page 50 1, lastSignature = Some (sig_name 99),
      keepFetching = True, totalFetched = 100, profitTraders = [], pageRequests = 2,
      fetchedTransactions = []\<rparr> + 1\<rparr>)
         (recent_page 50 2))"
      by (rule window_loop_step)
         (simp_all add: initial_state_def repeat_pages MAX_TRANSACTIONS_PER_INTERVAL_def)
    also have "\<dots> =
      window_loop repeat_provider 1700000000000 86400000 150
       \<lparr>allSignatures = recent_page 50 0 @ recent_page 50 1 @ recent_page 50 2,
      lastSignature = Some (sig_name 149), keepFetching = True, totalFetched = 150,
      profitTraders = [], pageRequests = 3, fetchedTransactions = []\<rparr>"
      by (simp add: initial_state_def repeat_step_3 del: One_nat_def)
    finally show ?thesis .
  qed
  have run_4: "window_loop repeat_provider 1700000000000 86400000 150
     \<lparr>allSignatures = recent_page 50 0 @ recent_page 50 1 @ recent_page 50 2,
      lastSignature = Some (sig_name 149), keepFetching = True, totalFetched = 150,
      profitTraders = [], pageRequests = 3, fetchedTransactions = []\<rparr> =
    window_loop repeat_provider 1700000000000 86400000 150
     \<lparr>allSignatures = recent_page 50 0 @ recent_page 50 1 @ recent_page 50 2 @ recent_page 50 3,
      lastSignature = Some (sig_name 199), keepFetching = True, totalFetched = 200,
      profitTraders =
        [(''A'', \<lparr>profit = 5, trades = 1, totalVolume = 23 / 10, successfulTrades = 1,
                 averageTradeSize = 23 / 10, solBalance = 0, usdProfit = 0\<rparr>)],
      pageRequests = 4, fetchedTransactions = map sig_name [0..<200]\<rparr>"
  proof -
    have "window_loop repeat_provider 1700000000000 86400000 150
     \<lparr>allSignatures = recent_page 50 0 @ recent_page 50 1 @ recent_page 50 2,
      lastSignature = Some (sig_name 149), keepFetching = True, totalFetched = 150,
      profitTraders = [], pageRequests = 3, fetchedTransactions = []\<rparr> =
      window_loop repeat_provider 1700000000000 86400000 150
       (window_step repeat_provider 1700000000000 86400000 150
         (\<lparr>allSignatures = recent_page 50 0 @ recent_page 50 1 @ recent_page 50 2,
      lastSignature = Some (sig_name 149), keepFetching = True, totalFetched = 150,
      profitTraders = [], pageRequests = 3, fetchedTransactions = []\<rparr>
            \<lparr>pageRequests := pageRequests
               \<lparr>allSignatures = recent_page 50 0 @ recent_page 50 1 @ recent_page 50 2,
      lastSignature = Some (sig_name 149), keepFetching = True, totalFetched = 150,
      profitTraders = [], pageRequests = 3, fetchedTransactions = []\<rparr> + 1\<rparr>)
         (recent_page 50 3))"
      by (rule window_loop_step)
         (simp_all add: initial_state_def repeat_pages MAX_TRANSACTIONS_PER_INTERVAL_def)
    also have "\<dots> =
      window_loop repeat_provider 1700000000000 86400000 150
       \<lparr>allSignatures = recent_page 50 0 @ recent_page 50 1 @ recent_page 50 2 @ recent_page 50 3,
      lastSignature = Some (sig_name 199), keepFetching = True, totalFetched = 200,
      profitTraders =
        [(''A'', \<lparr>profit = 5, trades = 1, totalVolume = 23 / 10, successfulTrades = 1,
                 averageTradeSize = 23 / 10, solBalance = 0, usdProfit = 0\<rparr>)],
      pageRequests = 4, fetchedTransactions = map sig_name [0..<200]\<rparr>"
      by (simp add: initial_state_def repeat_step_4 del: One_nat_def)
    finally show ?thesis .
  qed
  have run_5: "window_loop repeat_provider 1700000000000 86400000 150
     \<lparr>allSignatures = recent_page 50 0 @ recent_page 50 1 @ recent_page 50 2 @ recent_page 50 3,
      lastSignature = Some (sig_name 199), keepFetching = True, totalFetched = 200,
      profitTraders =
        [(''A'', \<lparr>profit = 5, trades = 1, totalVolume = 23 / 10, successfulTrades = 1,
                 averageTradeSize = 23 / 10, solBalance = 0, usdProfit = 0\<rparr>)],
      pageRequests = 4, fetchedTransactions = map sig_name [0..<200]\<rparr> =
    window_loop repeat_provider 1700000000000 86400000 150
     \<lparr>allSignatures = recent_page 50 0 @ recent_page 50 1 @ recent_page 50 2 @ recent_page 50 3,
      lastSignature = Some (sig_name 199), keepFetching = False, totalFetched = 201,
      profitTraders =
        [(''A'', \<lparr>profit = 10, trades = 2, totalVolume = 46 / 10, successfulTrades = 2,
                 averageTradeSize = 23 / 10, solBalance = 0, usdProfit = 0\<rparr>)],
      pageRequests = 5,
      fetchedTransactions = map sig_name [0..<200] @ map sig_name [0..<200]\<rparr>"
  proof -
    have "window_loop repeat_provider 1700000000000 86400000 150
     \<lparr>allSignatures = recent_page 50 0 @ recent_page 50 1 @ recent_page 50 2 @ recent_page 50 3,
      lastSignature = Some (sig_name 199), keepFetching = True, totalFetched = 200,
      profitTraders =
        [(''A'', \<lparr>profit = 5, trades = 1, totalVolume = 23 / 10, successfulTrades = 1,
                 averageTradeSize = 23 / 10, solBalance = 0, usdProfit = 0\<rparr>)],
      pageRequests = 4, fetchedTransactions = map sig_name [0..<200]\<rparr> =
      window_loop repeat_provider 1700000000000 86400000 150
       (window_step repeat_provider 1700000000000 86400000 150
         (\<lparr>allSignatures = recent_page 50 0 @ recent_page 50 1 @ recent_page 50 2 @ recent_page 50 3,
      lastSignature = Some (sig_name 199), keepFetching = True, totalFetched = 200,
      profitTraders =
        [(''A'', \<lparr>profit = 5, trades = 1, totalVolume = 23 / 10, successfulTrades = 1,
                 averageTradeSize = 23 / 10, solBalance = 0, usdProfit = 0\<rparr>)],
      pageRequests = 4, fetchedTransactions = map sig_name [0..<200]\<rparr>
            \<lparr>pageRequests := pageRequests
               \<lparr>allSignatures = recent_page 50 0 @ recent_page 50 1 @ recent_page 50 2 @ recent_page 50 3,
      lastSignature = Some (sig_name 199), keepFetching = True, totalFetched = 200,
      profitTraders =
        [(''A'', \<lparr>profit = 5, trades = 1, totalVolume = 23 / 10, successfulTrades = 1,
                 averageTradeSize = 23 / 10, solBalance = 0, usdProfit = 0\<rparr>)],
      pageRequests = 4, fetchedTransactions = map sig_name [0..<200]\<rparr> + 1\<rparr>)
         ([\<lparr>signature = sig_name 200, blockTime = Some 1600000000\<rparr>]))"
      by (rule window_loop_step)
         (simp_all add: initial_state_def repeat_pages MAX_TRANSACTIONS_PER_INTERVAL_def)
    also have "\<dots> =
      window_loop repeat_provider 1700000000000 86400000 150
       \<lparr>allSignatures = recent_page 50 0 @ recent_page 50 1 @ recent_page 50 2 @ recent_page 50 3,
      lastSignature = Some (sig_name 199), keepFetching = False, totalFetched = 201,
      profitTraders =
        [(''A'', \<lparr>profit = 10, trades = 2, totalVolume = 46 / 10, successfulTrades = 2,
                 averageTradeSize = 23 / 10, solBalance = 0, usdProfit = 0\<rparr>)],
      pageRequests = 5,
      fetchedTransactions = map sig_name [0..<200] @ map sig_name [0..<200]\<rparr>"
      by (simp add: initial_state_def repeat_step_5 del: One_nat_def)
    finally show ?thesis .
  qed
  have "window_loop repeat_provider 1700000000000 86400000 150
     \<lparr>allSignatures = recent_page 50 0 @ recent_page 50 1 @ recent_page 50 2 @ recent_page 50 3,
      lastSignature = Some (sig_name 199), keepFetching = False, totalFetched = 201,
      profitTraders =
        [(''A'', \<lparr>profit = 10, trades = 2, totalVolume = 46 / 10, successfulTrades = 2,
                 averageTradeSize = 23 / 10, solBalance = 0, usdProfit = 0\<rparr>)],
      pageRequests = 5,
      fetchedTransactions = map sig_name [0..<200] @ map sig_name [0..<200]\<rparr> =
   Inr \<lparr>allSignatures = recent_page 50 0 @ recent_page 50 1 @ recent_page 50 2 @ recent_page 50 3,
      lastSignature = Some (sig_name 199), keepFetching = False, totalFetched = 201,
      profitTraders =
        [(''A'', \<lparr>profit = 10, trades = 2, totalVolume = 46 / 10, successfulTrades = 2,
                 averageTradeSize = 23 / 10, solBalance = 0, usdProfit = 0\<rparr>)],
      pageRequests = 5,
      fetchedTransactions = map sig_name [0..<200] @ map sig_name [0..<200]\<rparr>"
    by (rule window_loop_stopped) simp
  with run_1 run_2 run_3 run_4 run_5 show ?thesis by (simp only:)
qed

text \<open>
  C1 on the code. The four full pages bring \<open>totalFetched\<close> to 200, and all 200
  accumulated signatures are fetched and applied; the fifth page ends the pagination, and
  the same 200 signatures are fetched and applied again. Wallet \<open>A\<close> is in one
  transaction, which gives a profit of 5 and one trade when it is applied once; the period
  ends with a profit of 10 and two trades for \<open>A\<close>.
\<close>

theorem reprocessing_doubles_ledger:
  "map_sum id
     (\<lambda>(st, rows). (map signature (allSignatures st), fetchedTransactions st, profitTraders st))
     (track_period repeat_provider 1700000000000 86400000 150) =
   Inr (map sig_name [0..<200],
        map sig_name [0..<200] @ map sig_name [0..<200],
        [(''A'', \<lparr>profit = 10, trades = 2, totalVolume = 46 / 10, successfulTrades = 2,
                 averageTradeSize = 23 / 10, solBalance = 0, usdProfit = 0\<rparr>)]) \<and>
   process_transaction [] (Some gain_tx) =
     [(''A'', \<lparr>profit = 5, trades = 1, totalVolume = 23 / 10, successfulTrades = 1,
              averageTradeSize = 23 / 10, solBalance = 0, usdProfit = 0\<rparr>)]"
  by (simp add: track_period_def repeat_loop displayResults_few_trades signatures_200
      process_gain_tx_first del: One_nat_def map_append)

end
